theory Spec2Isabelle
  imports Main "HOL-Library.Multiset"
begin

chapter \<open>The model\<close>

section \<open>JavaScript values used by gbulk\<close>

text \<open>
  Errors are values.  \<open>Error\<close> is a plain JavaScript \<open>Error\<close> with its message,
  \<open>TypeError\<close> is what the runtime raises when a property of \<open>undefined\<close> or \<open>null\<close>
  is read, \<open>SyntaxError\<close> is what \<open>new RegExp\<close> raises on an invalid pattern,
  \<open>CLIError\<close> is what oclif's \<open>this.error(msg)\<close> throws, and \<open>ExecaError\<close> is the
  rejection of \<open>execa\<close> when the child process fails, with its \<open>exitCode\<close> (undefined
  when the process could not be started) and its \<open>shortMessage\<close>, and \<open>SystemError\<close> is
  the error of a file system call, with its \<open>code\<close>.
\<close>

datatype js_error =
    Error string
  | TypeError
  | SyntaxError
  | CLIError string
  | ExecaError "nat option" string
  | SystemError string

text \<open>
  A boolean flag of the command line is \<open>true\<close>, \<open>false\<close> or \<open>undefined\<close>:
  \<open>Some True\<close>, \<open>Some False\<close>, \<open>None\<close>.  \<open>truthy\<close> is JavaScript's coercion of such a
  value in a condition.
\<close>

type_synonym tri = "bool option"

definition truthy :: "tri \<Rightarrow> bool" where
  "truthy v = (v = Some True)"

text \<open>\<open>Array.prototype.join\<close> on an array of strings.\<close>

fun join :: "string \<Rightarrow> string list \<Rightarrow> string" where
  "join sep [] = []"
| "join sep [x] = x"
| "join sep (x # y # ys) = x @ sep @ join sep (y # ys)"

section \<open>src/commons.js: buildFetchOptions\<close>

text \<open>
  \<open>this.flags\<close> of the backup command.  \<open>isPublic\<close> and \<open>isPrivate\<close> are the names the
  source gives to the flags \<open>public\<close> and \<open>private\<close> when it destructures them.
\<close>

record flags =
  isPublic :: tri
  isPrivate :: tri
  owner :: tri
  collaborator :: tri
  member :: tri
  exclude :: "string list option"
  match :: "string list option"

text \<open>\<open>this.flags[flag]\<close> for the three names of \<open>affiliationFlags\<close>.\<close>

definition flag :: "'a flags_scheme \<Rightarrow> string \<Rightarrow> tri" where
  "flag fl f =
     (if f = ''owner'' then owner fl
      else if f = ''collaborator'' then collaborator fl
      else if f = ''member'' then member fl
      else None)"

definition affiliationFlags :: "string list" where
  "affiliationFlags = [''owner'', ''collaborator'', ''member'']"

text \<open>
  Lines 199 to 212: the local array \<open>affiliation\<close>.  Each \<open>forEach\<close> is a left fold that
  pushes at the end of the array.
\<close>

definition affiliation :: "'a flags_scheme \<Rightarrow> string list" where
  "affiliation fl =
     (let enabled = foldl (\<lambda>acc f. if truthy (flag fl f) then acc @ [f] else acc)
                      [] affiliationFlags
      in if length enabled = 0
         then foldl (\<lambda>acc f. if flag fl f \<noteq> Some False then acc @ [f] else acc)
                enabled affiliationFlags
         else enabled)"

record fetch_options =
  otype :: string
  params :: "(string \<times> string) list"

definition buildFetchOptions :: "'a flags_scheme \<Rightarrow> string \<Rightarrow> js_error + fetch_options" where
  "buildFetchOptions fl type =
     (if type = ''User'' then
        (let typeParam =
               (if truthy (member fl) \<and> \<not> truthy (owner fl) then ''member''
                else if truthy (owner fl) \<and> \<not> truthy (member fl) then ''owner''
                else ''all'')
         in Inr \<lparr>otype = type, params = [(''type'', typeParam)]\<rparr>)
      else if type = ''Organization'' then
        (let typeParam =
               (if truthy (isPublic fl) \<and> \<not> truthy (isPrivate fl) \<and> \<not> truthy (member fl)
                then ''public''
                else if truthy (isPrivate fl) \<and> \<not> truthy (isPublic fl) \<and> \<not> truthy (member fl)
                then ''private''
                else if truthy (member fl) \<and> \<not> truthy (isPublic fl) \<and> \<not> truthy (isPrivate fl)
                then ''member''
                else ''all'')
         in Inr \<lparr>otype = type, params = [(''type'', typeParam)]\<rparr>)
      else if type = ''Authenticated'' then
        (let visibility =
               (if truthy (isPublic fl) \<and> \<not> truthy (isPrivate fl) then ''public''
                else if truthy (isPrivate fl) \<and> \<not> truthy (isPublic fl) then ''private''
                else ''all'')
         in Inr \<lparr>otype = type,
                 params =
                   [(''affiliation'',
                     join '',''
                       (map (\<lambda>aff. if aff = ''member'' then ''organization_member'' else aff)
                          (affiliation fl))),
                    (''visibility'', visibility)]\<rparr>)
      else Inl (CLIError (''User type '' @ type @ '' is not handled.'')))"

section \<open>src/commons.js: handleExclusions and handleInclusions\<close>

text \<open>
  A repository as \<open>recurseRepositories\<close> builds it (src/lib/github-api.js, lines 123 to
  132); \<open>urls_https\<close> is the field \<open>urls.https\<close> and \<open>repo_private\<close> the field \<open>private\<close>.
\<close>

record repository =
  fullName :: string
  name :: string
  description :: "string option"
  repo_private :: bool
  fork :: bool
  urls_https :: string

text \<open>
  The regular expression engine belongs to the JavaScript runtime, so it is a parameter:
  \<open>RegExp p\<close> is \<open>None\<close> when \<open>new RegExp(p)\<close> raises a \<open>SyntaxError\<close>, and otherwise
  \<open>Some test\<close>, where \<open>test s\<close> is \<open>new RegExp(p).test(s)\<close>.
\<close>

type_synonym regexp = "string \<Rightarrow> (string \<Rightarrow> bool) option"

text \<open>\<open>Array.prototype.reduce\<close> with a callback that may throw.\<close>

fun reduce :: "('b \<Rightarrow> 'a \<Rightarrow> js_error + 'b) \<Rightarrow> 'a list \<Rightarrow> 'b \<Rightarrow> js_error + 'b" where
  "reduce f [] acc = Inr acc"
| "reduce f (x # xs) acc =
     (case f acc x of Inl e \<Rightarrow> Inl e | Inr acc' \<Rightarrow> reduce f xs acc')"

text \<open>
  The callback of \<open>exclude.reduce\<close> (lines 247 to 260).  The state is the accumulator
  \<open>acc\<close> with the captured array \<open>excluded\<close>, which the callback pushes to.
\<close>

definition excludeRule ::
  "regexp \<Rightarrow> repository \<Rightarrow> bool \<times> string list \<Rightarrow> string \<Rightarrow> js_error + bool \<times> string list"
where
  "excludeRule RegExp repo st pat =
     (case st of (acc, excluded) \<Rightarrow>
        if acc then
          (case RegExp pat of
             None \<Rightarrow> Inl SyntaxError
           | Some test \<Rightarrow>
               (let keep = \<not> test (name repo)
                in Inr (keep, if \<not> keep then excluded @ [name repo] else excluded)))
        else Inr (acc, excluded))"

text \<open>The callback of \<open>match.reduce\<close> (lines 284 to 297).\<close>

definition matchRule ::
  "regexp \<Rightarrow> repository \<Rightarrow> bool \<times> string list \<Rightarrow> string \<Rightarrow> js_error + bool \<times> string list"
where
  "matchRule RegExp repo st pat =
     (case st of (acc, excluded) \<Rightarrow>
        if acc then
          (case RegExp pat of
             None \<Rightarrow> Inl SyntaxError
           | Some test \<Rightarrow>
               (let keep = test (name repo)
                in Inr (keep, if \<not> keep then excluded @ [name repo] else excluded)))
        else Inr (acc, excluded))"

text \<open>
  \<open>repositories.filter\<close> with a callback that reduces the pattern list from \<open>true\<close>: the
  repositories are visited in order, \<open>excluded\<close> is carried from one to the next, and an
  exception of the callback ends the whole filter.
\<close>

fun filterRules ::
  "(repository \<Rightarrow> bool \<times> string list \<Rightarrow> string \<Rightarrow> js_error + bool \<times> string list) \<Rightarrow>
   string list \<Rightarrow> repository list \<Rightarrow> string list \<Rightarrow> js_error + repository list \<times> string list"
where
  "filterRules rule pats [] excluded = Inr ([], excluded)"
| "filterRules rule pats (repo # rest) excluded =
     (case reduce (rule repo) pats (True, excluded) of
        Inl e \<Rightarrow> Inl e
      | Inr (keep, excluded') \<Rightarrow>
          (case filterRules rule pats rest excluded' of
             Inl e \<Rightarrow> Inl e
           | Inr (kept, excluded'') \<Rightarrow> Inr (if keep then repo # kept else kept, excluded'')))"

text \<open>
  Both functions return the filtered array; the second component is the array \<open>excluded\<close>
  that the debug line prints (empty when the flag is absent or empty and nothing is
  printed).
\<close>

definition handleExclusions ::
  "regexp \<Rightarrow> 'a flags_scheme \<Rightarrow> repository list \<Rightarrow> js_error + repository list \<times> string list"
where
  "handleExclusions RegExp fl repositories =
     (case exclude fl of
        Some pats \<Rightarrow>
          if length pats \<noteq> 0 then filterRules (excludeRule RegExp) pats repositories []
          else Inr (repositories, [])
      | None \<Rightarrow> Inr (repositories, []))"

definition handleInclusions ::
  "regexp \<Rightarrow> 'a flags_scheme \<Rightarrow> repository list \<Rightarrow> js_error + repository list \<times> string list"
where
  "handleInclusions RegExp fl repositories =
     (case match fl of
        Some pats \<Rightarrow>
          if length pats \<noteq> 0 then filterRules (matchRule RegExp) pats repositories []
          else Inr (repositories, [])
      | None \<Rightarrow> Inr (repositories, []))"

text \<open>
  \<open>new RegExp(pat).test(s)\<close> for a pattern that compiles.
\<close>

definition test :: "regexp \<Rightarrow> string \<Rightarrow> string \<Rightarrow> bool" where
  "test RegExp pat s = (case RegExp pat of Some t \<Rightarrow> t s | None \<Rightarrow> False)"

text \<open>
  Sample data for the example of the specification: an engine that knows the two patterns
  \<open>^a$\<close> and \<open>^(a|b)$\<close> with the strings JavaScript accepts for them, and a repository
  record with a given short name.
\<close>

definition sampleRegExp :: regexp where
  "sampleRegExp =
     map_of [(''^a$'', \<lambda>s. s = ''a''), (''^(a|b)$'', \<lambda>s. s = ''a'' \<or> s = ''b'')]"

definition sampleRepository :: "string \<Rightarrow> repository" where
  "sampleRepository n =
     \<lparr>fullName = ''octocat/'' @ n, name = n, description = None, repo_private = False,
      fork = False, urls_https = ''https://token@github.com/octocat/'' @ n @ ''.git''\<rparr>"

section \<open>src/lib/github-api.js\<close>

text \<open>
  A record of the listing as GitHub sends it, with the fields the client reads.
  \<open>raw_name\<close>, \<open>raw_description\<close>, \<open>raw_private\<close> and \<open>raw_fork\<close> are its fields \<open>name\<close>,
  \<open>description\<close>, \<open>private\<close> and \<open>fork\<close>; \<open>permissions\<close> is absent on some endpoints.
\<close>

record permissions =
  pull :: bool

record raw_repository =
  full_name :: string
  raw_name :: string
  raw_description :: "string option"
  raw_private :: bool
  raw_fork :: bool
  clone_url :: string
  permissions :: "permissions option"

text \<open>
  What \<open>axios\<close> resolves with: \<open>data\<close> is \<open>None\<close> when the body is not an array,
  \<open>headers_link\<close> is the header \<open>link\<close>.  The transport is a parameter: \<open>axios (url, params)\<close>
  is \<open>None\<close> when the call throws, which it does on a network error and on a status
  outside 2xx.
\<close>

record response =
  data :: "raw_repository list option"
  headers_link :: "string option"

type_synonym 'p request = "string \<times> 'p option"

type_synonym 'p transport = "'p request \<Rightarrow> response option"

text \<open>The lines written through \<open>debug\<close>, one constructor for each message.\<close>

datatype debug_line =
    Arguments
  | FetchAuthenticated
  | Fetch string
  | FetchFailed
  | Got nat
  | SkipNoPull string
  | PullRight nat nat
  | NoRepositories

text \<open>
  \<open>String.prototype.indexOf(sub) !== -1\<close> and \<open>String.prototype.split\<close> on a separator of
  one character.
\<close>

definition startsWith :: "string \<Rightarrow> string \<Rightarrow> bool" where
  "startsWith s p = (take (length p) s = p)"

fun containsStr :: "string \<Rightarrow> string \<Rightarrow> bool" where
  "containsStr [] sub = (sub = [])"
| "containsStr (c # cs) sub = (startsWith (c # cs) sub \<or> containsStr cs sub)"

fun split :: "char \<Rightarrow> string \<Rightarrow> string list" where
  "split sep [] = [[]]"
| "split sep (c # cs) =
     (if c = sep then [] # split sep cs
      else (case split sep cs of
              [] \<Rightarrow> [[c]]
            | piece # pieces \<Rightarrow> (c # piece) # pieces))"

text \<open>
  \<open>clone_url.replace(/github.com/, token + '@github.com')\<close>: the first place where
  \<open>github\<close>, one character that is no line terminator, and \<open>com\<close> follow each other is
  replaced.  The token is inserted as it is, which is what JavaScript does for a
  replacement without the character \<open>$\<close>.
\<close>

definition dot :: "char \<Rightarrow> bool" where
  "dot c = (c \<noteq> CHR 0x0A \<and> c \<noteq> CHR 0x0D)"

definition githubDotCom :: "string \<Rightarrow> bool" where
  "githubDotCom s =
     (startsWith s ''github'' \<and> 10 \<le> length s \<and> dot (s ! 6) \<and> startsWith (drop 7 s) ''com'')"

fun embedToken :: "string \<Rightarrow> string \<Rightarrow> string" where
  "embedToken token [] = []"
| "embedToken token (c # cs) =
     (if githubDotCom (c # cs) then token @ ''@github.com'' @ drop 10 (c # cs)
      else c # embedToken token cs)"

text \<open>
  The test \<open>repo.permissions && !repo.permissions.pull\<close> and the object literal of lines
  123 to 132.
\<close>

definition lacksPull :: "raw_repository \<Rightarrow> bool" where
  "lacksPull repo = (case permissions repo of Some p \<Rightarrow> \<not> pull p | None \<Rightarrow> False)"

definition toRepository :: "string \<Rightarrow> raw_repository \<Rightarrow> repository" where
  "toRepository token repo =
     \<lparr>fullName = full_name repo, name = raw_name repo, description = raw_description repo,
      repo_private = raw_private repo, fork = raw_fork repo,
      urls_https = embedToken token (clone_url repo)\<rparr>"

text \<open>The callback of \<open>res.data.reduce\<close> (lines 119 to 136), with the debug lines it writes.\<close>

definition keepReadable ::
  "string \<Rightarrow> repository list \<times> debug_line list \<Rightarrow> raw_repository \<Rightarrow>
   repository list \<times> debug_line list"
where
  "keepReadable token st repo =
     (case st of (acc, log) \<Rightarrow>
        if lacksPull repo then (acc, log @ [SkipNoPull (raw_name repo)])
        else (acc @ [toRepository token repo], log))"

text \<open>
  Lines 116 to 143: the repositories of one response and the debug lines.  \<open>None\<close> stands
  for the empty object \<open>res\<close> keeps when the fetch failed.
\<close>

definition pageRepositories ::
  "string \<Rightarrow> response option \<Rightarrow> debug_line list \<Rightarrow> repository list \<times> debug_line list"
where
  "pageRepositories token res log =
     (case (case res of Some r \<Rightarrow> data r | None \<Rightarrow> None) of
        Some d \<Rightarrow>
          if length d \<noteq> 0 then
            (case foldl (keepReadable token) ([], log @ [Got (length d)]) d of
               (repos, log') \<Rightarrow>
                 (repos,
                  if length repos \<noteq> length d
                  then log' @ [PullRight (length repos) (length d)] else log'))
          else ([], log @ [NoRepositories])
      | None \<Rightarrow> ([], log @ [NoRepositories]))"

text \<open>
  Lines 146 to 150.  \<open>relNext\<close> is the text \<open>rel="next"\<close>.  \<open>captureAt rest\<close> is the attempt
  of the pattern \<open><(.*)?>; rel="next"\<close> right after a character \<open><\<close>: the group takes the
  longest non-empty run of characters that are no line terminators and that the rest of
  the pattern can follow; if only the empty run would do, the group does not take part
  and stays \<open>undefined\<close> (\<open>Some None\<close>).  \<open>matchNext\<close> tries the places from the left.
\<close>

definition relNext :: string where
  \<open>relNext = ''rel='' @ [CHR 0x22] @ ''next'' @ [CHR 0x22]\<close>

definition captureAt :: "string \<Rightarrow> string option option" where
  "captureAt rest =
     (let run = length (takeWhile dot rest);
          ends = filter (\<lambda>j. startsWith (drop j rest) (''>; '' @ relNext)) (rev [1..<Suc run])
      in case ends of
           j # _ \<Rightarrow> Some (Some (take j rest))
         | [] \<Rightarrow> if startsWith rest (''>; '' @ relNext) then Some None else None)"

fun matchNext :: "string \<Rightarrow> string option option" where
  "matchNext [] = None"
| "matchNext (c # cs) =
     (if c = CHR ''<'' then
        (case captureAt cs of Some groups \<Rightarrow> Some groups | None \<Rightarrow> matchNext cs)
      else matchNext cs)"

text \<open>
  The address of the next page: \<open>Inr None\<close> when the response has no header \<open>link\<close> or
  none of its parts holds \<open>rel="next"\<close>, and a \<open>TypeError\<close> when such a part is found but
  the pattern does not match it (\<open>match\<close> returns \<open>null\<close>, which cannot be destructured) or
  matches with an undefined group (\<open>nextUrl.replace\<close> on \<open>undefined\<close>).
\<close>

definition nextUrl :: "response option \<Rightarrow> js_error + string option" where
  "nextUrl res =
     (case (case res of Some r \<Rightarrow> headers_link r | None \<Rightarrow> None) of
        None \<Rightarrow> Inr None
      | Some link \<Rightarrow>
          if link = [] then Inr None
          else (case find (\<lambda>part. containsStr part relNext) (split CHR '','' link) of
                  None \<Rightarrow> Inr None
                | Some nextLink \<Rightarrow>
                    (case matchNext nextLink of
                       None \<Rightarrow> Inl TypeError
                     | Some None \<Rightarrow> Inl TypeError
                     | Some (Some url) \<Rightarrow> Inr (Some url))))"

text \<open>
  \<open>recurseRepositories\<close> calls itself as long as a next page is announced, so the model
  takes fuel, one unit for each request, and returns \<open>None\<close> when it runs out.  Otherwise
  it returns what the promise settles with, \<open>Inr\<close> the array or \<open>Inl\<close> the exception, and
  the debug lines.  The argument \<open>page\<close> of the source is computed and passed on but never
  read, and is left out.
\<close>

fun recurseRepositories ::
  "nat \<Rightarrow> 'p transport \<Rightarrow> string \<Rightarrow> string \<Rightarrow> 'p option \<Rightarrow> repository list \<Rightarrow>
   debug_line list \<Rightarrow> ((js_error + repository list) \<times> debug_line list) option"
where
  "recurseRepositories 0 axios token url params' repositories log = None"
| "recurseRepositories (Suc fuel) axios token url params' repositories log =
     (let res = axios (url, params');
          log1 = (case res of
                    None \<Rightarrow> log @ [Fetch url, FetchFailed]
                  | Some r \<Rightarrow> log @ [Fetch url])
      in case pageRepositories token res log1 of
           (repos, log2) \<Rightarrow>
             (case nextUrl res of
                Inl e \<Rightarrow> Some (Inl e, log2)
              | Inr (Some next) \<Rightarrow>
                  recurseRepositories fuel axios token next None (repositories @ repos) log2
              | Inr None \<Rightarrow> Some (Inr (repositories @ repos), log2)))"

definition base :: string where
  "base = ''https://api.github.com''"

text \<open>
  \<open>GithubAPI.get.repositories\<close> (lines 66 to 82).  \<open>token\<close> and \<open>from\<close> are \<open>None\<close> when
  absent; a string is falsy when it is empty.
\<close>

definition falsy :: "string option \<Rightarrow> bool" where
  "falsy s = (s = None \<or> s = Some [])"

definition getRepositories ::
  "nat \<Rightarrow> 'p transport \<Rightarrow> string option \<Rightarrow> string option \<Rightarrow> 'p option \<Rightarrow>
   ((js_error + repository list) \<times> debug_line list) option"
where
  "getRepositories fuel axios token from options =
     (if falsy token
      then Some (Inl (Error ''No token provided @getAuthenticatedUserRepositories''), [])
      else if falsy from
      then recurseRepositories fuel axios (the token) (base @ ''/user/repos'') options []
             [Arguments, FetchAuthenticated]
      else Some (Inr [], [Arguments]))"

text \<open>
  A listing as the server answers it.  \<open>listing axios req pages truncated\<close>: starting with
  the request \<open>req\<close>, the fetches succeed with the responses \<open>pages\<close>, in this order, each
  but the last announcing the address of the next; then either the last response
  announces no next page (\<open>truncated\<close> is false), or the fetch that follows fails
  (\<open>truncated\<close> is true; with no page at all, the first fetch fails).
\<close>

fun listing :: "'p transport \<Rightarrow> 'p request \<Rightarrow> response list \<Rightarrow> bool \<Rightarrow> bool" where
  "listing axios req [] truncated = (truncated \<and> axios req = None)"
| "listing axios req (r # rs) truncated =
     (axios req = Some r \<and>
      (case nextUrl (Some r) of
         Inl e \<Rightarrow> False
       | Inr None \<Rightarrow> rs = [] \<and> \<not> truncated
       | Inr (Some next) \<Rightarrow> listing axios (next, None) rs truncated))"

text \<open>
  The raw records of a response, the records of a page the caller may read, normalised,
  and the names that the debug lines report as skipped.
\<close>

definition records :: "response \<Rightarrow> raw_repository list" where
  "records r = (case data r of Some d \<Rightarrow> d | None \<Rightarrow> [])"

definition retained :: "string \<Rightarrow> response \<Rightarrow> repository list" where
  "retained token r = map (toRepository token) (filter (\<lambda>repo. \<not> lacksPull repo) (records r))"

fun skippedNames :: "debug_line list \<Rightarrow> string list" where
  "skippedNames [] = []"
| "skippedNames (SkipNoPull n # log) = n # skippedNames log"
| "skippedNames (l # log) = skippedNames log"

text \<open>
  Sample data: a public record the caller may read, a record without pull permission, a
  \<open>Link\<close> header in GitHub's format, and a server that answers the listing in three pages
  of 100, 100 and 37 records.
\<close>

definition sampleRaw :: raw_repository where
  "sampleRaw =
     \<lparr>full_name = ''octocat/hello'', raw_name = ''hello'', raw_description = None,
      raw_private = False, raw_fork = False,
      clone_url = ''https://github.com/octocat/hello.git'',
      permissions = Some \<lparr>pull = True\<rparr>\<rparr>"

definition sampleLink :: "string \<Rightarrow> string \<Rightarrow> string \<Rightarrow> string" where
  \<open>sampleLink url rel page =
     ''<'' @ url @ ''?page='' @ page @ ''>; rel='' @ [CHR 0x22] @ rel @ [CHR 0x22]\<close>

definition sampleAxios :: "fetch_options transport" where
  "sampleAxios req =
     (let first = base @ ''/user/repos'' in
      if req = (first, None) then
        Some \<lparr>data = Some (replicate 100 sampleRaw),
              headers_link = Some (sampleLink first ''next'' ''2'' @ '', '' @
                                   sampleLink first ''last'' ''3'')\<rparr>
      else if req = (first @ ''?page=2'', None) then
        Some \<lparr>data = Some (replicate 100 sampleRaw),
              headers_link = Some (sampleLink first ''prev'' ''1'' @ '', '' @
                                   sampleLink first ''next'' ''3'' @ '', '' @
                                   sampleLink first ''last'' ''3'')\<rparr>
      else if req = (first @ ''?page=3'', None) then
        Some \<lparr>data = Some (replicate 37 sampleRaw),
              headers_link = Some (sampleLink first ''prev'' ''2'' @ '', '' @
                                   sampleLink first ''first'' ''1'')\<rparr>
      else None)"

definition samplePages :: "response list" where
  "samplePages = (let first = base @ ''/user/repos'' in
     [\<lparr>data = Some (replicate 100 sampleRaw),
              headers_link = Some (sampleLink first ''next'' ''2'' @ '', '' @
                                   sampleLink first ''last'' ''3'')\<rparr>,
      \<lparr>data = Some (replicate 100 sampleRaw),
              headers_link = Some (sampleLink first ''prev'' ''1'' @ '', '' @
                                   sampleLink first ''next'' ''3'' @ '', '' @
                                   sampleLink first ''last'' ''3'')\<rparr>,
      \<lparr>data = Some (replicate 37 sampleRaw),
              headers_link = Some (sampleLink first ''prev'' ''2'' @ '', '' @
                                   sampleLink first ''first'' ''1'')\<rparr>])"

definition samplePrivate :: raw_repository where
  "samplePrivate =
     \<lparr>full_name = ''acme/secret'', raw_name = ''secret'', raw_description = None,
      raw_private = True, raw_fork = False,
      clone_url = ''https://github.com/acme/secret.git'',
      permissions = Some \<lparr>pull = False\<rparr>\<rparr>"

section \<open>src/lib/git.js\<close>

text \<open>
  The git executable is a parameter.  Its commands act on a state \<open>'g\<close> (the file system
  with the repositories in it) and either succeed or make \<open>execa\<close> reject:
  \<open>git_clone url path\<close> is \<open>git clone --mirror url path\<close>, \<open>git_lfs_fetch cwd\<close> is
  \<open>git lfs fetch --all\<close>, \<open>git_show_ref cwd\<close> is \<open>git show-ref\<close> with its standard output, and
  \<open>git_update_ref_d ref cwd\<close> is \<open>git update-ref -d ref\<close>, the last three run in \<open>cwd\<close>.
\<close>

record 'g git =
  git_clone :: "string \<Rightarrow> string \<Rightarrow> 'g \<Rightarrow> (js_error + unit) \<times> 'g"
  git_lfs_fetch :: "string \<Rightarrow> 'g \<Rightarrow> (js_error + unit) \<times> 'g"
  git_show_ref :: "string \<Rightarrow> 'g \<Rightarrow> (js_error + string) \<times> 'g"
  git_update_ref_d :: "string \<Rightarrow> string \<Rightarrow> 'g \<Rightarrow> (js_error + unit) \<times> 'g"

text \<open>\<open>err.exitCode\<close> and \<open>err.shortMessage || err.message\<close>.\<close>

fun exitCode :: "js_error \<Rightarrow> nat option" where
  "exitCode (ExecaError code msg) = code"
| "exitCode e = None"

fun shortMessage :: "js_error \<Rightarrow> string" where
  "shortMessage (ExecaError code msg) = msg"
| "shortMessage (Error msg) = msg"
| "shortMessage (CLIError msg) = msg"
| "shortMessage TypeError = ''TypeError''"
| "shortMessage SyntaxError = ''SyntaxError''"
| "shortMessage (SystemError code) = code"

text \<open>\<open>os.EOL\<close> on a POSIX system.\<close>

definition EOL :: char where
  "EOL = CHR 0x0A"

text \<open>
  Lines 51 to 59 of \<open>cleanGithubRefs\<close>: \<open>secondField ref\<close> is the second element of
  \<open>ref.split(' ')\<close>, \<open>None\<close> when there is none; \<open>refsToDel\<close> is the reduction over the lines
  of the output.
\<close>

definition secondField :: "string \<Rightarrow> string option" where
  "secondField ref = (case split CHR '' '' ref of a # b # rest \<Rightarrow> Some b | _ \<Rightarrow> None)"

definition refsToDel :: "string \<Rightarrow> string list" where
  "refsToDel refs =
     foldl (\<lambda>acc ref.
              case secondField ref of
                Some r \<Rightarrow> if r \<noteq> [] \<and> containsStr r ''/pull/'' then acc @ [r] else acc
              | None \<Rightarrow> acc)
       [] (split EOL refs)"

text \<open>The loop of lines 62 to 66: the first deletion that fails ends it.\<close>

fun deleteRefs :: "'g git \<Rightarrow> string \<Rightarrow> string list \<Rightarrow> 'g \<Rightarrow> (js_error + unit) \<times> 'g" where
  "deleteRefs git cwd [] g = (Inr (), g)"
| "deleteRefs git cwd (ref # refs) g =
     (case git_update_ref_d git ref cwd g of
        (Inl e, g') \<Rightarrow> (Inl e, g')
      | (Inr u, g') \<Rightarrow> deleteRefs git cwd refs g')"

text \<open>
  \<open>Git.cleanRefs\<close> (\<open>cleanGithubRefs\<close>, lines 37 to 69).  When \<open>git show-ref\<close> fails with
  exit code 1 the function returns \<open>false\<close>; when it fails otherwise the exception is
  dropped and \<open>refs\<close> is still the empty string.
\<close>

definition Git_cleanRefs :: "'g git \<Rightarrow> string \<Rightarrow> 'g \<Rightarrow> (js_error + bool) \<times> 'g" where
  "Git_cleanRefs git cwd g =
     (case git_show_ref git cwd g of
        (Inl err, g') \<Rightarrow>
          if exitCode err = Some 1 then (Inr False, g')
          else (case deleteRefs git cwd (refsToDel []) g' of
                  (Inl e, g'') \<Rightarrow> (Inl e, g'')
                | (Inr u, g'') \<Rightarrow> (Inr True, g''))
      | (Inr stdout, g') \<Rightarrow>
          (case deleteRefs git cwd (refsToDel stdout) g' of
             (Inl e, g'') \<Rightarrow> (Inl e, g'')
           | (Inr u, g'') \<Rightarrow> (Inr True, g'')))"

section \<open>src/commands/backup.js: the stages of one repository\<close>

text \<open>
  The flags of the backup command: the search flags above and \<open>clean-refs\<close>, \<open>lfs\<close>,
  \<open>quiet\<close>, \<open>interactive\<close> and \<open>parallel\<close>.
\<close>

record bflags = flags +
  clean_refs :: tri
  lfs :: tri
  quiet :: bool
  interactive :: bool
  parallel :: nat

text \<open>
  The state a run works on.  \<open>git_state\<close> is the state of the git executable.  \<open>files\<close> is
  the file system as far as the destination is concerned: the directories with the names
  of their entries, and the paths the process has no permission on.  \<open>spinners\<close> are the
  spinners of \<open>spinnies\<close>, by name, \<open>printed\<close> the lines the command writes, \<open>backupCount\<close>
  the counter of \<open>backup\<close> and \<open>destinationCreated\<close> the field of the command.
  The lines of \<open>this.debug\<close> have one constructor for each call in the stages, with the
  full name of the repository (\<open>PathExists\<close> carries the whole text, \<open>FailedToClone\<close> is
  the line of the \<open>catch\<close> in \<open>backup\<close>); \<open>Warn\<close> is \<open>this.warn\<close>, \<open>Log\<close> is \<open>this.log\<close>, and \<open>Done\<close> is the line
  \<open>backup\<close> writes with \<open>this.log\<close>, a check mark and the text of the spinner, in green or
  in yellow.
\<close>

datatype spin_status = Spinning | Succeeded | Failed

record spinner =
  spin_text :: string
  spin_status :: spin_status

datatype colour = Green | Yellow

datatype line =
    CloneRepository string
  | RepositoryCloned string
  | PathExists string
  | FetchLFSObjects string
  | LFSObjectsFetched string
  | FailedToFetchLFS string js_error
  | CleanPullRefs string
  | PullRefsCleaned string
  | NoPullRefToClean string
  | FailedToCleanRefs string js_error
  | FailedToClone string js_error
  | DebugMessage string
  | Warn string
  | Log string
  | Done colour string

record filesystem =
  dirs :: "string \<rightharpoonup> string list"
  protected :: "string set"

record 'g world =
  git_state :: 'g
  files :: filesystem
  spinners :: "string \<rightharpoonup> spinner"
  printed :: "line list"
  backupCount :: nat
  destinationCreated :: bool

text \<open>
  An asynchronous method: from the state to the settled promise (\<open>Inl\<close> a rejection) and
  the new state.  \<open>andThen\<close> is sequencing (\<open>await\<close>), \<open>tryCatch\<close> is \<open>try\<close> and \<open>catch\<close>.
\<close>

type_synonym ('g, 'a) action = "'g world \<Rightarrow> (js_error + 'a) \<times> 'g world"

definition resolve :: "'a \<Rightarrow> ('g, 'a) action" where
  "resolve a w = (Inr a, w)"

definition throw :: "js_error \<Rightarrow> ('g, 'a) action" where
  "throw e w = (Inl e, w)"

definition andThen :: "('g, 'a) action \<Rightarrow> ('a \<Rightarrow> ('g, 'b) action) \<Rightarrow> ('g, 'b) action" where
  "andThen m f w = (case m w of (Inl e, w') \<Rightarrow> (Inl e, w') | (Inr a, w') \<Rightarrow> f a w')"

definition tryCatch :: "('g, 'a) action \<Rightarrow> (js_error \<Rightarrow> ('g, 'a) action) \<Rightarrow> ('g, 'a) action" where
  "tryCatch m h w = (case m w of (Inl e, w') \<Rightarrow> h e w' | (Inr a, w') \<Rightarrow> (Inr a, w'))"

definition whenNot :: "bool \<Rightarrow> ('g, unit) action \<Rightarrow> ('g, unit) action" where
  "whenNot b m = (if b then resolve () else m)"

definition exec :: "('g \<Rightarrow> (js_error + 'a) \<times> 'g) \<Rightarrow> ('g, 'a) action" where
  "exec f w = (case f (git_state w) of (r, g') \<Rightarrow> (r, w\<lparr>git_state := g'\<rparr>))"

definition emit :: "line \<Rightarrow> ('g, unit) action" where
  "emit l w = (Inr (), w\<lparr>printed := printed w @ [l]\<rparr>)"

text \<open>
  The methods of \<open>spinnies\<close> the command uses.  \<open>pick\<close> returns \<open>undefined\<close> for a name
  without spinner, so reading \<open>.text\<close> of it is a \<open>TypeError\<close>; \<open>update\<close>, \<open>fail\<close> and
  \<open>succeed\<close> throw for such a name.
\<close>

definition spinnies_add :: "string \<Rightarrow> string \<Rightarrow> ('g, unit) action" where
  "spinnies_add n t w =
     (Inr (), w\<lparr>spinners := (spinners w)(n \<mapsto> \<lparr>spin_text = t, spin_status = Spinning\<rparr>)\<rparr>)"

definition spinnies_pick_text :: "string \<Rightarrow> ('g, string) action" where
  "spinnies_pick_text n w =
     (case spinners w n of None \<Rightarrow> (Inl TypeError, w) | Some sp \<Rightarrow> (Inr (spin_text sp), w))"

definition noSpinner :: "string \<Rightarrow> js_error" where
  "noSpinner n = Error (''No spinner initialized with name '' @ n)"

definition spinnies_update :: "string \<Rightarrow> string \<Rightarrow> ('g, unit) action" where
  "spinnies_update n t w =
     (case spinners w n of
        None \<Rightarrow> (Inl (noSpinner n), w)
      | Some sp \<Rightarrow> (Inr (), w\<lparr>spinners := (spinners w)(n \<mapsto> sp\<lparr>spin_text := t\<rparr>)\<rparr>))"

definition spinnies_fail :: "string \<Rightarrow> string \<Rightarrow> ('g, unit) action" where
  "spinnies_fail n t w =
     (case spinners w n of
        None \<Rightarrow> (Inl (noSpinner n), w)
      | Some sp \<Rightarrow>
          (Inr (), w\<lparr>spinners := (spinners w)(n \<mapsto> \<lparr>spin_text = t, spin_status = Failed\<rparr>)\<rparr>))"

definition spinnies_succeed :: "string \<Rightarrow> ('g, unit) action" where
  "spinnies_succeed n w =
     (case spinners w n of
        None \<Rightarrow> (Inl (noSpinner n), w)
      | Some sp \<Rightarrow>
          (Inr (), w\<lparr>spinners := (spinners w)(n \<mapsto> sp\<lparr>spin_status := Succeeded\<rparr>)\<rparr>))"

definition spinnies_remove :: "string \<Rightarrow> ('g, unit) action" where
  "spinnies_remove n w = (Inr (), w\<lparr>spinners := (spinners w)(n := None)\<rparr>)"

text \<open>
  The argument \<open>data\<close> of the stages, built by \<open>backup\<close>; \<open>dash\<close> is the dash between
  spaces that the spinner texts use, in UTF-8.
\<close>

record clone_data =
  data_path :: string
  data_url :: string
  data_fullName :: string

definition dash :: string where
  "dash = [CHR 0x20, CHR 0xE2, CHR 0x80, CHR 0x94, CHR 0x20]"

text \<open>\<open>clone\<close> (lines 395 to 431).\<close>

definition clone :: "'a bflags_scheme \<Rightarrow> 'g git \<Rightarrow> clone_data \<Rightarrow> ('g, unit) action" where
  "clone fl git d =
     andThen (emit (CloneRepository (data_fullName d))) (\<lambda>_.
     andThen (whenNot (quiet fl)
                (spinnies_add (data_fullName d) (data_fullName d @ dash @ ''Cloning...''))) (\<lambda>_.
     tryCatch
       (andThen (exec (git_clone git (data_url d) (data_path d))) (\<lambda>_.
        andThen (emit (RepositoryCloned (data_fullName d))) (\<lambda>_.
        whenNot (quiet fl)
          (spinnies_update (data_fullName d) (data_fullName d @ dash @ ''Cloned'')))))
       (\<lambda>err.
          andThen
            (if exitCode err = Some 128 then
               (let error = data_fullName d @ dash @
                      ''failed to clone: destination path exists and is not empty''
                in andThen (emit (PathExists error)) (\<lambda>_.
                   whenNot (quiet fl) (spinnies_fail (data_fullName d) error)))
             else whenNot (quiet fl) (spinnies_fail (data_fullName d) (shortMessage err)))
            (\<lambda>_. throw err))))"

text \<open>
  \<open>fetchLFS\<close> (lines 438 to 473).  \<open>curSpinnerText\<close> is \<open>false\<close> in quiet mode, where it is
  not used; the model takes the empty text for it.
\<close>

definition fetchLFS :: "'a bflags_scheme \<Rightarrow> 'g git \<Rightarrow> clone_data \<Rightarrow> ('g, bool) action" where
  "fetchLFS fl git d =
     andThen (if quiet fl then resolve [] else spinnies_pick_text (data_fullName d))
       (\<lambda>curSpinnerText.
     andThen (emit (FetchLFSObjects (data_fullName d))) (\<lambda>_.
     andThen (whenNot (quiet fl)
                (spinnies_update (data_fullName d)
                   (curSpinnerText @ dash @ ''Fetching LFS objects...''))) (\<lambda>_.
     tryCatch
       (andThen (exec (git_lfs_fetch git (data_path d))) (\<lambda>_.
        andThen (emit (LFSObjectsFetched (data_fullName d))) (\<lambda>_.
        andThen (whenNot (quiet fl)
                   (spinnies_update (data_fullName d)
                      (curSpinnerText @ dash @ ''LFS objects fetched''))) (\<lambda>_.
        resolve False))))
       (\<lambda>err.
          andThen (whenNot (quiet fl)
                     (spinnies_update (data_fullName d)
                        (curSpinnerText @ dash @ ''Failed to fetch LFS objects''))) (\<lambda>_.
          andThen (emit (FailedToFetchLFS (data_fullName d) err))
            (\<lambda>_.
          resolve True))))))"

text \<open>\<open>cleanRefs\<close> of the command (lines 480 to 526).\<close>

definition cleanRefs :: "'a bflags_scheme \<Rightarrow> 'g git \<Rightarrow> clone_data \<Rightarrow> ('g, bool) action" where
  "cleanRefs fl git d =
     andThen (if quiet fl then resolve [] else spinnies_pick_text (data_fullName d))
       (\<lambda>curSpinnerText.
     andThen (emit (CleanPullRefs (data_fullName d))) (\<lambda>_.
     andThen (whenNot (quiet fl)
                (spinnies_update (data_fullName d)
                   (curSpinnerText @ dash @ ''Cleaning /pull refs...''))) (\<lambda>_.
     tryCatch
       (andThen (exec (Git_cleanRefs git (data_path d))) (\<lambda>refsCleaned.
        andThen
          (if refsCleaned then
             andThen (emit (PullRefsCleaned (data_fullName d))) (\<lambda>_.
             whenNot (quiet fl)
               (spinnies_update (data_fullName d) (curSpinnerText @ dash @ ''Refs cleaned'')))
           else
             andThen (emit (NoPullRefToClean (data_fullName d))) (\<lambda>_.
             whenNot (quiet fl)
               (spinnies_update (data_fullName d) (curSpinnerText @ dash @ ''No ref to clean''))))
          (\<lambda>_. resolve False)))
       (\<lambda>err.
          andThen (whenNot (quiet fl)
                     (spinnies_update (data_fullName d)
                        (curSpinnerText @ dash @ ''Failed to clean pull refs''))) (\<lambda>_.
          andThen (emit (FailedToCleanRefs (data_fullName d) err))
            (\<lambda>_.
          resolve True))))))"

section \<open>src/commands/backup.js: backup\<close>

text \<open>
  \<open>path.resolve(destination, name)\<close> for an absolute destination and a name without dot
  segments, and the decimal digits of a number in a template string.
\<close>

definition pathResolve :: "string \<Rightarrow> string \<Rightarrow> string" where
  "pathResolve dir p = dir @ ''/'' @ p"

fun digits :: "nat \<Rightarrow> string" where
  "digits n = (if n < 10 then [char_of (48 + n)] else digits (n div 10) @ [char_of (48 + n mod 10)])"

text \<open>\<open>++backupCount\<close>.\<close>

definition nextCount :: "('g, nat) action" where
  "nextCount w = (Inr (Suc (backupCount w)), w\<lparr>backupCount := Suc (backupCount w)\<rparr>)"

text \<open>
  The function \<open>backup\<close> gives to \<open>mapLimit\<close> (lines 537 to 572), for one repository;
  \<open>globalBackupText\<close> and \<open>len\<close> (\<open>repositories.length\<close>) are what it captures.
\<close>

definition backupRepository ::
  "'a bflags_scheme \<Rightarrow> 'g git \<Rightarrow> string \<Rightarrow> string \<Rightarrow> nat \<Rightarrow> repository \<Rightarrow> ('g, unit) action"
where
  "backupRepository fl git destination globalBackupText len repository =
     (let d = \<lparr>data_path = pathResolve destination (fullName repository @ ''.git''),
               data_url = urls_https repository,
               data_fullName = fullName repository\<rparr>
      in tryCatch
           (andThen (clone fl git d) (\<lambda>_.
            andThen (if truthy (lfs fl) then fetchLFS fl git d else resolve False) (\<lambda>warn_lfs.
            andThen (if truthy (clean_refs fl) then cleanRefs fl git d else resolve False)
              (\<lambda>warn_refs.
            whenNot (quiet fl)
              (andThen (spinnies_pick_text (fullName repository)) (\<lambda>t.
               andThen (emit (Done (if warn_lfs \<or> warn_refs then Yellow else Green) t)) (\<lambda>_.
               andThen (spinnies_remove (fullName repository)) (\<lambda>_.
               andThen nextCount (\<lambda>n.
               spinnies_update ''backup''
                 (globalBackupText @ '' ('' @ digits n @ ''/'' @ digits len @ '')''))))))))))
           (\<lambda>err. emit (FailedToClone (fullName repository) err)))"

text \<open>
  An asynchronous method whose promise may never settle: \<open>None\<close> when it does not.
  \<open>settles\<close> is a method that always settles, \<open>awaitThen\<close> is sequencing.
\<close>

type_synonym ('g, 'a) promise = "'g world \<Rightarrow> ((js_error + 'a) \<times> 'g world) option"

definition settles :: "('g, 'a) action \<Rightarrow> ('g, 'a) promise" where
  "settles m w = Some (m w)"

definition awaitThen :: "('g, 'a) promise \<Rightarrow> ('a \<Rightarrow> ('g, 'b) promise) \<Rightarrow> ('g, 'b) promise" where
  "awaitThen m f w =
     (case m w of
        None \<Rightarrow> None
      | Some (Inl e, w') \<Rightarrow> Some (Inl e, w')
      | Some (Inr a, w') \<Rightarrow> f a w')"

text \<open>
  \<open>mapLimit\<close> of aigle, a library.  With an empty array it resolves at once.  With the
  limit 0 it starts no callback and its promise never settles.  With a limit of at least
  one, the model takes the schedule that runs the calls one after the other (\<open>inTurn\<close>),
  which every such limit allows; a rejection ends it.  The schedules in which the
  callbacks run at the same time are the subject of the last section of the model.
\<close>

fun inTurn :: "('a \<Rightarrow> ('g, unit) action) \<Rightarrow> 'a list \<Rightarrow> ('g, unit) action" where
  "inTurn iterator [] = resolve ()"
| "inTurn iterator (x # xs) = andThen (iterator x) (\<lambda>_. inTurn iterator xs)"

definition mapLimit :: "nat \<Rightarrow> ('a \<Rightarrow> ('g, unit) action) \<Rightarrow> 'a list \<Rightarrow> ('g, unit) promise" where
  "mapLimit limit iterator xs w =
     (if xs = [] then Some (Inr (), w)
      else if limit = 0 then None
      else Some (inTurn iterator xs w))"

text \<open>\<open>backup\<close> (lines 532 to 573).\<close>

definition backup ::
  "'a bflags_scheme \<Rightarrow> 'g git \<Rightarrow> string \<Rightarrow> repository list \<Rightarrow> ('g, unit) promise"
where
  "backup fl git destination repositories =
     awaitThen (settles (if quiet fl then resolve [] else spinnies_pick_text ''backup''))
       (\<lambda>globalBackupText.
     awaitThen (settles (\<lambda>w. (Inr (), w\<lparr>backupCount := 0\<rparr>))) (\<lambda>_.
     mapLimit (parallel fl)
       (backupRepository fl git destination globalBackupText (length repositories))
       repositories))"

text \<open>
  A git for examples.  Its state is the list of the refs of one mirror, each with its
  object name; \<open>git show-ref\<close> prints them one per line and exits with code 1 when there is
  none, \<open>git update-ref -d\<close> removes a ref, and \<open>git clone\<close> fails with exit code 1 for the
  addresses in \<open>unreachable\<close>.
\<close>

definition sampleGit :: "string list \<Rightarrow> (string \<times> string) list git" where
  "sampleGit unreachable =
     \<lparr>git_clone = (\<lambda>url' path' g.
        if url' \<in> set unreachable
        then (Inl (ExecaError (Some 1) ''Command failed with exit code 1''), g)
        else (Inr (), g)),
      git_lfs_fetch = (\<lambda>cwd g. (Inr (), g)),
      git_show_ref = (\<lambda>cwd g.
        if g = [] then (Inl (ExecaError (Some 1) ''Command failed with exit code 1''), g)
        else (Inr (join [EOL] (map (\<lambda>(sha, ref). sha @ '' '' @ ref) g)), g)),
      git_update_ref_d = (\<lambda>ref cwd g. (Inr (), filter (\<lambda>(sha, r). r \<noteq> ref) g))\<rparr>"

definition sampleFlags :: bflags where
  "sampleFlags =
     \<lparr>isPublic = None, isPrivate = None, owner = None, collaborator = None, member = None,
      exclude = None, match = None, clean_refs = Some True, lfs = Some False, quiet = False,
      interactive = False, parallel = 8\<rparr>"

definition sampleWorld :: "(string \<times> string) list \<Rightarrow> string list \<Rightarrow> (string \<times> string) list world" where
  "sampleWorld refs names =
     \<lparr>git_state = refs,
      files = \<lparr>dirs = Map.empty, protected = {}\<rparr>,
      spinners = map_of (map (\<lambda>n. (n, \<lparr>spin_text = n, spin_status = Spinning\<rparr>)) names),
      printed = [], backupCount = 0, destinationCreated = False\<rparr>"

text \<open>The argument of the stages for the sample repository \<open>octocat/hello\<close>.\<close>

definition sampleData :: clone_data where
  "sampleData =
     \<lparr>data_path = ''/backup/octocat/hello.git'',
      data_url = ''https://t0k3n@github.com/octocat/hello.git'',
      data_fullName = ''octocat/hello''\<rparr>"

section \<open>src/commands/backup.js: the destination\<close>

text \<open>
  The three file system calls of the command, on \<open>filesystem\<close>:
  \<open>fs.promises.access(path, W_OK)\<close>, \<open>fs.promises.mkdir(path)\<close> and \<open>fs.rmdirSync(path)\<close>.
  \<open>None\<close> is success, \<open>Some code\<close> the code of the error thrown.  A directory is removed
  only when it has no entry.
\<close>

definition access :: "string \<Rightarrow> filesystem \<Rightarrow> string option" where
  "access p fs =
     (if dirs fs p = None then Some ''ENOENT''
      else if p \<in> protected fs then Some ''EACCES''
      else None)"

definition mkdir :: "string \<Rightarrow> filesystem \<Rightarrow> string option \<times> filesystem" where
  "mkdir p fs =
     (if dirs fs p \<noteq> None then (Some ''EEXIST'', fs)
      else if p \<in> protected fs then (Some ''EACCES'', fs)
      else (None, fs\<lparr>dirs := (dirs fs)(p \<mapsto> [])\<rparr>))"

definition rmdirSync :: "string \<Rightarrow> filesystem \<Rightarrow> string option \<times> filesystem" where
  "rmdirSync p fs =
     (case dirs fs p of
        None \<Rightarrow> (Some ''ENOENT'', fs)
      | Some [] \<Rightarrow>
          if p \<in> protected fs then (Some ''EACCES'', fs)
          else (None, fs\<lparr>dirs := (dirs fs)(p := None)\<rparr>)
      | Some (entry # entries) \<Rightarrow> (Some ''ENOTEMPTY'', fs))"

text \<open>\<open>checkDestination\<close> (lines 246 to 273).\<close>

definition checkDestination :: "string \<Rightarrow> ('g, unit) action" where
  "checkDestination destination =
     andThen (emit (DebugMessage (''checking destination path '' @ destination))) (\<lambda>_ w.
       case access destination (files w) of
         None \<Rightarrow> emit (DebugMessage ''destination path exists and is writable'') w
       | Some code \<Rightarrow>
           if code = ''ENOENT'' then
             andThen (emit (DebugMessage ''destination path does not exists, create it...''))
               (\<lambda>_ w'.
                  case mkdir destination (files w') of
                    (None, fs) \<Rightarrow>
                      emit (DebugMessage ''destination path created'')
                        (w'\<lparr>files := fs, destinationCreated := True\<rparr>)
                  | (Some code', fs) \<Rightarrow>
                      andThen (emit (DebugMessage code'))
                        (\<lambda>_. throw (CLIError (''Cannot create '' @ destination)))
                        (w'\<lparr>files := fs\<rparr>))
               w
           else throw (CLIError (''Cannot access '' @ destination)) w)"

text \<open>
  \<open>shutdown\<close>, the handler of the revision of the command that registers it (kept in
  src/lib/github-api.js, lines 1517 to 1540).  The first component is the argument of
  \<open>process.exit\<close> when the handler calls it, and \<open>None\<close> when the handler returns.
  \<open>cancelled\<close> is the text both branches write.
\<close>

definition cancelled :: string where
  "cancelled = ''---'' @ [EOL] @ ''Backup cancelled!''"

definition shutdown :: "string \<Rightarrow> 'g world \<Rightarrow> nat option \<times> 'g world" where
  "shutdown destination w =
     (if destinationCreated w then
        (case rmdirSync destination (files w) of
           (None, fs) \<Rightarrow>
             (None, w\<lparr>files := fs, printed := printed w @ [Log cancelled]\<rparr>)
         | (Some code, fs) \<Rightarrow>
             (Some 130,
              w\<lparr>files := fs,
                printed := printed w @
                  [Log (cancelled @ [EOL, EOL] @ destination @
                        '' will not be removed as it is not empty'')]\<rparr>))
      else (Some 130, w\<lparr>printed := printed w @ [Log cancelled]\<rparr>))"

text \<open>
  An interrupt: \<open>initGracefulShutdown\<close> registers \<open>shutdown\<close> for \<open>SIGINT\<close> and for the
  event \<open>exit\<close>, so that when the handler calls \<open>process.exit\<close> it runs once more before
  the process ends, with the code of the first call.  \<open>None\<close>: the process goes on.
\<close>

definition interrupt :: "string \<Rightarrow> 'g world \<Rightarrow> nat option \<times> 'g world" where
  "interrupt destination w =
     (case shutdown destination w of
        (None, w') \<Rightarrow> (None, w')
      | (Some code, w') \<Rightarrow> (Some code, snd (shutdown destination w')))"

section \<open>src/commands/backup.js: run\<close>

text \<open>
  What a run reads from outside: the arguments and flags of the command line, the
  authentication of the configuration file, the default destination, whether \<open>git\<close> and
  \<open>git lfs\<close> are found, the answers to the prompts, what \<open>GithubAPI.get.user\<close> settles with
  (the type of the account, or the exception), the transport and the fuel of the listing,
  the git executable and the regular expression engine.
\<close>

record auth =
  auth_token :: "string option"
  auth_user :: "string option"

record 'g env =
  argv_from :: "string option"
  argv_destination :: "string option"
  argv_flags :: bflags
  config_auth :: "auth option"
  default_destination :: string
  git_found :: bool
  lfs_found :: bool
  answer_filters :: "string list"
  answer_repos :: "string list"
  answer_cleanRefs :: bool
  answer_lfs :: bool
  account_type :: "js_error + string"
  env_axios :: "fetch_options transport"
  env_fuel :: nat
  env_git :: "'g git"
  env_RegExp :: regexp

text \<open>
  \<open>initArgs\<close>: the schema takes any non-empty string and defaults \<open>from\<close> to the user of
  the configuration file and \<open>destination\<close> to the default path.
\<close>

definition initArgs :: "'g env \<Rightarrow> js_error + string option \<times> string" where
  "initArgs env =
     (if argv_from env = Some [] \<or> argv_destination env = Some []
      then Inl (CLIError ''Failed to validate args'')
      else Inr (case argv_from env of
                  Some f \<Rightarrow> Some f
                | None \<Rightarrow> (case config_auth env of Some a \<Rightarrow> auth_user a | None \<Rightarrow> None),
                case argv_destination env of
                  Some d \<Rightarrow> d
                | None \<Rightarrow> default_destination env))"

text \<open>\<open>checkAuth\<close> of src/commons.js (lines 10 to 25) and \<open>checkGit\<close> (lines 229 to 240).\<close>

definition checkAuth :: "'g env \<Rightarrow> js_error + auth" where
  "checkAuth env =
     (case config_auth env of
        Some a \<Rightarrow>
          if \<not> falsy (auth_token a) \<and> \<not> falsy (auth_user a) then Inr a
          else Inl (CLIError ''You are not authenticated, please run gbulk login first.'')
      | None \<Rightarrow> Inl (CLIError ''You are not authenticated, please run gbulk login first.''))"

definition checkGit :: "'g env \<Rightarrow> js_error + unit" where
  "checkGit env =
     (if git_found env then Inr ()
      else Inl (CLIError ''git not found. Make sure git is installed and run gbulk again''))"

text \<open>
  \<open>promptSearchFilters\<close> of src/commons.js: each selected filter is set to \<open>true\<close> in the
  flags.
\<close>

definition setFlag :: "'a bflags_scheme \<Rightarrow> string \<Rightarrow> 'a bflags_scheme" where
  "setFlag fl f =
     (if f = ''public'' then fl\<lparr>isPublic := Some True\<rparr>
      else if f = ''private'' then fl\<lparr>isPrivate := Some True\<rparr>
      else if f = ''owner'' then fl\<lparr>owner := Some True\<rparr>
      else if f = ''collaborator'' then fl\<lparr>collaborator := Some True\<rparr>
      else if f = ''member'' then fl\<lparr>member := Some True\<rparr>
      else fl)"

definition promptSearchFilters :: "'g env \<Rightarrow> 'a bflags_scheme \<Rightarrow> 'a bflags_scheme" where
  "promptSearchFilters env fl = foldl setFlag fl (answer_filters env)"

text \<open>
  \<open>handleCleanRefOption\<close> (lines 295 to 318) and \<open>handleLFSOption\<close> (lines 326 to 368); the
  second may write a warning.
\<close>

definition handleCleanRefOption :: "'g env \<Rightarrow> 'a bflags_scheme \<Rightarrow> 'a bflags_scheme" where
  "handleCleanRefOption env fl =
     (if interactive fl \<and> clean_refs fl \<noteq> None then fl
      else if interactive fl then
        (if answer_cleanRefs env then fl\<lparr>clean_refs := Some True\<rparr> else fl)
      else if clean_refs fl = None then fl\<lparr>clean_refs := Some False\<rparr>
      else fl)"

definition handleLFSOption :: "'g env \<Rightarrow> 'a bflags_scheme \<Rightarrow> ('g, 'a bflags_scheme) action" where
  "handleLFSOption env fl =
     (if \<not> lfs_found env then
        andThen
          (if \<not> quiet fl \<and> (truthy (lfs fl) \<or> (lfs fl = None \<and> interactive fl))
           then emit (Warn
             ''Git LFS is not installed, objects stored through LFS will not be backup.'')
           else resolve ())
          (\<lambda>_. resolve (fl\<lparr>lfs := Some False\<rparr>))
      else if interactive fl \<and> lfs fl \<noteq> None then resolve fl
      else if interactive fl then resolve (fl\<lparr>lfs := Some (answer_lfs env)\<rparr>)
      else if lfs fl = None then resolve (fl\<lparr>lfs := Some False\<rparr>)
      else resolve fl)"

text \<open>
  The methods \<open>buildFetchOptions\<close>, \<open>handleExclusions\<close>, \<open>handleInclusions\<close> and
  \<open>selectRepositories\<close> of the command (lines 373 to 389 and 285 to 287) call the function
  of src/commons.js and return nothing: their value is \<open>undefined\<close>, here \<open>None\<close>, unless
  the function throws.  \<open>handleInclusions\<close> is called with the \<open>undefined\<close> that
  \<open>handleExclusions\<close> returned, on which the function of src/commons.js calls \<open>filter\<close>
  when the flag \<open>match\<close> is not empty.
\<close>

definition command_buildFetchOptions ::
  "'a flags_scheme \<Rightarrow> string \<Rightarrow> js_error + fetch_options option" where
  "command_buildFetchOptions fl type =
     (case buildFetchOptions fl type of Inl e \<Rightarrow> Inl e | Inr opts \<Rightarrow> Inr None)"

definition command_handleExclusions ::
  "regexp \<Rightarrow> 'a flags_scheme \<Rightarrow> repository list \<Rightarrow> js_error + repository list option" where
  "command_handleExclusions RegExp fl repositories =
     (case handleExclusions RegExp fl repositories of Inl e \<Rightarrow> Inl e | Inr kept \<Rightarrow> Inr None)"

definition command_handleInclusions ::
  "regexp \<Rightarrow> 'a flags_scheme \<Rightarrow> repository list option \<Rightarrow> js_error + repository list option"
where
  "command_handleInclusions RegExp fl repositories =
     (case repositories of
        None \<Rightarrow>
          (case match fl of
             Some pats \<Rightarrow> if length pats \<noteq> 0 then Inl TypeError else Inr None
           | None \<Rightarrow> Inr None)
      | Some rs \<Rightarrow>
          (case handleInclusions RegExp fl rs of Inl e \<Rightarrow> Inl e | Inr kept \<Rightarrow> Inr None))"

text \<open>
  Lines 635 to 647 of \<open>run\<close>, for an array \<open>repositories\<close>: the backup with its spinner.
\<close>

definition runBackup ::
  "'a bflags_scheme \<Rightarrow> 'g git \<Rightarrow> string \<Rightarrow> repository list \<Rightarrow> ('g, unit) promise" where
  "runBackup fl git destination repositories =
     awaitThen (settles (emit (DebugMessage
                (''backup of '' @ digits (length repositories) @ '' repositories'')))) (\<lambda>_.
     awaitThen (settles (whenNot (quiet fl)
                (spinnies_add ''backup''
                   (''Backup of '' @ digits (length repositories) @ '' repositories...'')))) (\<lambda>_.
     awaitThen (backup fl git destination repositories) (\<lambda>_.
     awaitThen (settles (emit (DebugMessage ''backup complete''))) (\<lambda>_.
     settles (whenNot (quiet fl) (spinnies_succeed ''backup''))))))"

text \<open>
  The expression \<open>this.handleInclusions(this.handleExclusions(repositories))\<close> of line 626
  of \<open>run\<close>, on the two methods of the command: the inner call is evaluated first, and
  its exception is the exception of the whole.
\<close>

definition filtered ::
  "regexp \<Rightarrow> 'a flags_scheme \<Rightarrow> repository list \<Rightarrow> js_error + repository list option" where
  "filtered RegExp fl repositories =
     (case command_handleExclusions RegExp fl repositories of
        Inl e \<Rightarrow> Inl e
      | Inr excluded \<Rightarrow> command_handleInclusions RegExp fl excluded)"

text \<open>
  Lines 623 to 648 of \<open>run\<close>: what follows the listing.  After line 626 the variable
  \<open>repositories\<close> holds what the method \<open>handleInclusions\<close> returned, and reading \<open>length\<close>
  of \<open>undefined\<close> is a \<open>TypeError\<close>.
\<close>

definition afterListing ::
  "'g env \<Rightarrow> bflags \<Rightarrow> string \<Rightarrow> repository list \<Rightarrow> ('g, unit) promise" where
  "afterListing env fl destination repositories =
     (if length repositories = 0 then settles (emit (Warn ''No repositories to backup.''))
      else
        (case filtered (env_RegExp env) fl repositories of
           Inl e \<Rightarrow> settles (throw e)
         | Inr repositories' \<Rightarrow>
        (if interactive fl \<and> repositories' = None then settles (throw TypeError)
         else
           awaitThen (settles (resolve
                      (if interactive fl \<and> 1 < length (the repositories') then None
                       else repositories'))) (\<lambda>repositories''.
           awaitThen (settles (handleLFSOption env (handleCleanRefOption env fl))) (\<lambda>fl'.
           (case repositories'' of
              None \<Rightarrow> settles (throw TypeError)
            | Some rs \<Rightarrow> runBackup fl' (env_git env) destination rs))))))"

text \<open>
  \<open>run\<close> (lines 578 to 649).  The result is \<open>None\<close> when the listing runs out of fuel or
  the promise of \<open>backup\<close> never settles.
  \<open>GithubAPI.get.user\<close> is given one object where it takes the token and the user, so it
  asks for the account of the token and what it settles with does not depend on \<open>from\<close>;
  it is the field \<open>account_type\<close> of the environment.
\<close>

definition run :: "'g env \<Rightarrow> 'g world \<Rightarrow> ((js_error + unit) \<times> 'g world) option" where
  "run env w0 =
     (case initArgs env of
        Inl e \<Rightarrow> Some (Inl e, w0)
      | Inr (from, destination) \<Rightarrow>
     (let fl0 = argv_flags env;
          w1 = (if quiet fl0 then snd (emit (DebugMessage ''quiet mode enabled'') w0) else w0)
      in case checkAuth env of
           Inl e \<Rightarrow> Some (Inl e, w1)
         | Inr a \<Rightarrow>
      (case checkGit env of
           Inl e \<Rightarrow> Some (Inl e, w1)
         | Inr u \<Rightarrow>
      (case checkDestination destination w1 of
           (Inl e, w2) \<Rightarrow> Some (Inl e, w2)
         | (Inr u', w2) \<Rightarrow>
      (let fl = (if interactive fl0 then promptSearchFilters env fl0 else fl0)
       in case (if from = auth_user a then command_buildFetchOptions fl ''Authenticated''
                else (case account_type env of
                        Inl e \<Rightarrow> Inl e
                      | Inr type \<Rightarrow> command_buildFetchOptions fl type)) of
            Inl e \<Rightarrow> Some (Inl e, w2)
          | Inr options \<Rightarrow>
       (case whenNot (quiet fl)
               (spinnies_add ''fetch'' (''Fetching repositories of '' @ the from)) w2 of
            (Inl e, w3) \<Rightarrow> Some (Inl e, w3)
          | (Inr u'', w3) \<Rightarrow>
       (case getRepositories (env_fuel env) (env_axios env) (auth_token a) from options of
            None \<Rightarrow> None
          | Some (Inl e, log) \<Rightarrow> Some (Inl e, w3)
          | Some (Inr repositories, log) \<Rightarrow>
              awaitThen (settles (whenNot (quiet fl) (spinnies_succeed ''fetch'')))
                (\<lambda>_. afterListing env fl destination repositories) w3)))))))"


section \<open>What the lines of a backup tell\<close>

text \<open>
  The names of the repositories whose clone was started (\<open>attempts\<close>), ended well
  (\<open>cloned\<close>) or was caught as failed by \<open>backup\<close> (\<open>failures\<close>), in the order of the lines,
  and the number of lines that report a repository as done (\<open>completed\<close>).
\<close>

fun attempts :: "line list \<Rightarrow> string list" where
  "attempts [] = []"
| "attempts (CloneRepository n # ls) = n # attempts ls"
| "attempts (l # ls) = attempts ls"

fun cloned :: "line list \<Rightarrow> string list" where
  "cloned [] = []"
| "cloned (RepositoryCloned n # ls) = n # cloned ls"
| "cloned (l # ls) = cloned ls"

fun failures :: "line list \<Rightarrow> string list" where
  "failures [] = []"
| "failures (FailedToClone n e # ls) = n # failures ls"
| "failures (l # ls) = failures ls"

fun completed :: "line list \<Rightarrow> nat" where
  "completed [] = 0"
| "completed (Done c t # ls) = Suc (completed ls)"
| "completed (l # ls) = completed ls"

text \<open>
  The names of the repositories whose LFS objects were asked for (\<open>lfsFetches\<close>) and whose
  pull refs were looked for (\<open>refCleanings\<close>), in the order of the lines, and the number of
  lines that report a repository as done in a given colour (\<open>doneIn\<close>).
\<close>

fun lfsFetches :: "line list \<Rightarrow> string list" where
  "lfsFetches [] = []"
| "lfsFetches (FetchLFSObjects n # ls) = n # lfsFetches ls"
| "lfsFetches (l # ls) = lfsFetches ls"

fun refCleanings :: "line list \<Rightarrow> string list" where
  "refCleanings [] = []"
| "refCleanings (CleanPullRefs n # ls) = n # refCleanings ls"
| "refCleanings (l # ls) = refCleanings ls"

fun doneIn :: "colour \<Rightarrow> line list \<Rightarrow> nat" where
  "doneIn c [] = 0"
| "doneIn c (Done c' t # ls) = (if c' = c then Suc (doneIn c ls) else doneIn c ls)"
| "doneIn c (l # ls) = doneIn c ls"




text \<open>
  Sample data for the pipeline: three repositories, the first of which cannot be cloned.
\<close>

definition sampleUnreachable :: "string list" where
  "sampleUnreachable = [urls_https (sampleRepository ''a'')]"

definition sampleRepositories :: "repository list" where
  "sampleRepositories = [sampleRepository ''a'', sampleRepository ''b'', sampleRepository ''c'']"

text \<open>
  Sample states for the interrupt: the directory \<open>/backup\<close> with the given entries
  (\<open>None\<close> when it does not exist), created by the run or not.
\<close>

definition sampleFiles :: "string list option \<Rightarrow> bool \<Rightarrow> (string \<times> string) list world" where
  "sampleFiles entries created =
     (sampleWorld [] [])\<lparr>files := \<lparr>dirs = (\<lambda>p. if p = ''/backup'' then entries else None),
                                     protected = {}\<rparr>,
                         destinationCreated := created\<rparr>"

section \<open>src/commands/backup.js: backup with interleaved repositories\<close>

text \<open>
  The callback of \<open>backup\<close> for one repository (lines 537 to 572), cut into four stages:
  the three calls it awaits (the clone, the fetch of the LFS objects, the cleaning of the
  refs) and the report that follows them.  A \<open>stage\<close> is the place the callback has
  reached, with the warnings it holds so far; \<open>report\<close> is the block of lines 561 to 568;
  \<open>advance\<close> runs the stage the callback is at, and an exception of any stage ends the
  callback in its \<open>catch\<close>.
\<close>

datatype stage = AtClone | AtLFS | AtRefs bool | AtReport bool bool | Finished

definition report ::
  "'a bflags_scheme \<Rightarrow> string \<Rightarrow> nat \<Rightarrow> repository \<Rightarrow> bool \<Rightarrow> bool \<Rightarrow> ('g, unit) action"
where
  "report fl globalBackupText len repository warn_lfs warn_refs =
     whenNot (quiet fl)
       (andThen (spinnies_pick_text (fullName repository)) (\<lambda>t.
        andThen (emit (Done (if warn_lfs \<or> warn_refs then Yellow else Green) t)) (\<lambda>_.
        andThen (spinnies_remove (fullName repository)) (\<lambda>_.
        andThen nextCount (\<lambda>n.
        spinnies_update ''backup''
          (globalBackupText @ '' ('' @ digits n @ ''/'' @ digits len @ '')''))))))"

definition caught ::
  "repository \<Rightarrow> (js_error + 'a) \<times> 'g world \<Rightarrow> ('a \<Rightarrow> stage) \<Rightarrow> stage \<times> 'g world"
where
  "caught repository settled continue =
     (case settled of
        (Inl e, w) \<Rightarrow> (Finished, snd (emit (FailedToClone (fullName repository) e) w))
      | (Inr a, w) \<Rightarrow> (continue a, w))"

definition advance ::
  "'a bflags_scheme \<Rightarrow> 'g git \<Rightarrow> string \<Rightarrow> string \<Rightarrow> nat \<Rightarrow> repository \<Rightarrow> stage \<Rightarrow>
   'g world \<Rightarrow> stage \<times> 'g world"
where
  "advance fl git destination globalBackupText len repository st w =
     (let d = \<lparr>data_path = pathResolve destination (fullName repository @ ''.git''),
               data_url = urls_https repository,
               data_fullName = fullName repository\<rparr>
      in case st of
           AtClone \<Rightarrow> caught repository (clone fl git d w) (\<lambda>_. AtLFS)
         | AtLFS \<Rightarrow>
             caught repository
               ((if truthy (lfs fl) then fetchLFS fl git d else resolve False) w) AtRefs
         | AtRefs warn_lfs \<Rightarrow>
             caught repository
               ((if truthy (clean_refs fl) then cleanRefs fl git d else resolve False) w)
               (AtReport warn_lfs)
         | AtReport warn_lfs warn_refs \<Rightarrow>
             caught repository
               (report fl globalBackupText len repository warn_lfs warn_refs w) (\<lambda>_. Finished)
         | Finished \<Rightarrow> (Finished, w))"

text \<open>
  \<open>mapLimit\<close> of aigle with callbacks that run at the same time (with the limit 0 none
  is ever started).  A configuration holds
  the repositories not yet started, the callbacks in progress with their stages, the
  repositories whose callback has ended, and the state.  A callback is started while
  fewer than \<open>limit\<close> are in progress; any callback in progress may run its next stage;
  a callback that has finished leaves.  Each stage is one step: the stages of different
  repositories interleave in any order.
\<close>

type_synonym 'g configuration =
  "repository list \<times> (repository \<times> stage) list \<times> repository list \<times> 'g world"

inductive schedule ::
  "'a bflags_scheme \<Rightarrow> 'g git \<Rightarrow> string \<Rightarrow> string \<Rightarrow> nat \<Rightarrow> nat \<Rightarrow>
   'g configuration \<Rightarrow> 'g configuration \<Rightarrow> bool"
  for fl :: "'a bflags_scheme" and git :: "'g git" and destination :: string
    and globalBackupText :: string and len :: nat and limit :: nat
where
  start:
    "length running < limit \<Longrightarrow>
     schedule fl git destination globalBackupText len limit
       (r # pending, running, ended, w) (pending, running @ [(r, AtClone)], ended, w)"
| run:
    "st \<noteq> Finished \<Longrightarrow>
     advance fl git destination globalBackupText len r st w = (st', w') \<Longrightarrow>
     schedule fl git destination globalBackupText len limit
       (pending, before @ (r, st) # after, ended, w)
       (pending, before @ (r, st') # after, ended, w')"
| leave:
    "schedule fl git destination globalBackupText len limit
       (pending, before @ (r, Finished) # after, ended, w)
       (pending, before @ after, ended @ [r], w)"









text \<open>
  A schedule given by its choices, for running one on an example: start the next
  repository, let the callback at an index of the list in progress run its stage, or let
  it leave.  A choice that is not possible gives \<open>None\<close>.
\<close>

datatype choice = Start | Step nat | Leave nat

fun follow ::
  "'a bflags_scheme \<Rightarrow> 'g git \<Rightarrow> string \<Rightarrow> string \<Rightarrow> nat \<Rightarrow> nat \<Rightarrow> choice \<Rightarrow>
   'g configuration \<Rightarrow> 'g configuration option"
where
  "follow fl git destination globalBackupText len limit Start (pending, running, ended, w) =
     (case pending of
        [] \<Rightarrow> None
      | r # rest \<Rightarrow>
          if length running < limit then Some (rest, running @ [(r, AtClone)], ended, w)
          else None)"
| "follow fl git destination globalBackupText len limit (Step i) (pending, running, ended, w) =
     (if i < length running \<and> snd (running ! i) \<noteq> Finished then
        (case advance fl git destination globalBackupText len (fst (running ! i))
                (snd (running ! i)) w of
           (st', w') \<Rightarrow>
             Some (pending, take i running @ (fst (running ! i), st') # drop (Suc i) running,
                   ended, w'))
      else None)"
| "follow fl git destination globalBackupText len limit (Leave i) (pending, running, ended, w) =
     (if i < length running \<and> snd (running ! i) = Finished then
        Some (pending, take i running @ drop (Suc i) running, ended @ [fst (running ! i)], w)
      else None)"




chapter \<open>Properties\<close>

section \<open>Affiliation resolution for the authenticated account\<close>

lemma affiliation_first_pass:
  "foldl (\<lambda>acc f. if truthy (flag fl f) then acc @ [f] else acc) [] affiliationFlags
     = filter (\<lambda>f. flag fl f = Some True) affiliationFlags"
  by (simp add: affiliationFlags_def truthy_def)

lemma affiliation_second_pass:
  "foldl (\<lambda>acc f. if flag fl f \<noteq> Some False then acc @ [f] else acc) [] affiliationFlags
     = filter (\<lambda>f. flag fl f \<noteq> Some False) affiliationFlags"
  by (simp add: affiliationFlags_def)

lemma affiliation_eq:
  "affiliation fl =
     (if \<exists>f \<in> set affiliationFlags. flag fl f = Some True
      then filter (\<lambda>f. flag fl f = Some True) affiliationFlags
      else filter (\<lambda>f. flag fl f \<noteq> Some False) affiliationFlags)"
  unfolding affiliation_def Let_def affiliation_first_pass
  by (auto simp: affiliation_second_pass filter_empty_conv)

lemma some_flag_true_iff:
  "(\<exists>f \<in> set affiliationFlags. flag fl f = Some True)
     \<longleftrightarrow> owner fl = Some True \<or> collaborator fl = Some True \<or> member fl = Some True"
  by (auto simp: affiliationFlags_def flag_def)

lemma buildFetchOptions_Authenticated:
  "buildFetchOptions fl ''Authenticated'' =
     Inr \<lparr>otype = ''Authenticated'',
          params =
            [(''affiliation'',
              join '',''
                (map (\<lambda>aff. if aff = ''member'' then ''organization_member'' else aff)
                   (affiliation fl))),
             (''visibility'',
              if truthy (isPublic fl) \<and> \<not> truthy (isPrivate fl) then ''public''
              else if truthy (isPrivate fl) \<and> \<not> truthy (isPublic fl) then ''private''
              else ''all'')]\<rparr>"
  by (simp add: buildFetchOptions_def Let_def)

text \<open>
  C1.  For the account type \<open>Authenticated\<close>, \<open>buildFetchOptions\<close> sends as affiliation the
  resolved array \<open>affiliation\<close> (joined with commas, \<open>member\<close> spelled
  \<open>organization_member\<close>), and that array is resolved as follows.  When at least one of
  \<open>owner\<close>, \<open>collaborator\<close>, \<open>member\<close> is explicitly \<open>true\<close>, it holds exactly the flags that
  are explicitly \<open>true\<close>, in the order owner, collaborator, member; an unset flag is left
  out.  When none is explicitly \<open>true\<close>, it holds every flag that is not explicitly
  \<open>false\<close>.  It is empty only when all three flags are explicitly \<open>false\<close>.
\<close>

theorem buildFetchOptions_affiliation_resolution:
  "(\<exists>visibility.
      buildFetchOptions fl ''Authenticated'' =
        Inr \<lparr>otype = ''Authenticated'',
             params =
               [(''affiliation'',
                 join '',''
                   (map (\<lambda>aff. if aff = ''member'' then ''organization_member'' else aff)
                      (affiliation fl))),
                (''visibility'', visibility)]\<rparr>)
   \<and> (if owner fl = Some True \<or> collaborator fl = Some True \<or> member fl = Some True
      then affiliation fl =
             filter (\<lambda>f. flag fl f = Some True) [''owner'', ''collaborator'', ''member'']
           \<and> set (affiliation fl) =
               {f. f \<in> {''owner'', ''collaborator'', ''member''} \<and> flag fl f = Some True}
      else affiliation fl =
             filter (\<lambda>f. flag fl f \<noteq> Some False) [''owner'', ''collaborator'', ''member'']
           \<and> set (affiliation fl) =
               {''owner'', ''collaborator'', ''member''} - {f. flag fl f = Some False})
   \<and> (affiliation fl = []
        \<longleftrightarrow> owner fl = Some False \<and> collaborator fl = Some False \<and> member fl = Some False)"
proof -
  let ?all = "[''owner'', ''collaborator'', ''member'']"
  have opts: "\<exists>visibility.
      buildFetchOptions fl ''Authenticated'' =
        Inr \<lparr>otype = ''Authenticated'',
             params =
               [(''affiliation'',
                 join '',''
                   (map (\<lambda>aff. if aff = ''member'' then ''organization_member'' else aff)
                      (affiliation fl))),
                (''visibility'', visibility)]\<rparr>"
    unfolding buildFetchOptions_Authenticated by blast
  have res: "affiliation fl =
      (if owner fl = Some True \<or> collaborator fl = Some True \<or> member fl = Some True
       then filter (\<lambda>f. flag fl f = Some True) ?all
       else filter (\<lambda>f. flag fl f \<noteq> Some False) ?all)"
    using affiliation_eq [of fl] some_flag_true_iff [of fl]
    by (simp add: affiliationFlags_def)
  have sets: "set (filter (\<lambda>f. flag fl f = Some True) ?all) =
        {f. f \<in> {''owner'', ''collaborator'', ''member''} \<and> flag fl f = Some True}"
      "set (filter (\<lambda>f. flag fl f \<noteq> Some False) ?all) =
        {''owner'', ''collaborator'', ''member''} - {f. flag fl f = Some False}"
    by auto
  have empty: "affiliation fl = []
        \<longleftrightarrow> owner fl = Some False \<and> collaborator fl = Some False \<and> member fl = Some False"
    unfolding res by (auto simp: flag_def)
  have mid: "if owner fl = Some True \<or> collaborator fl = Some True \<or> member fl = Some True
      then affiliation fl = filter (\<lambda>f. flag fl f = Some True) ?all
           \<and> set (affiliation fl) =
               {f. f \<in> {''owner'', ''collaborator'', ''member''} \<and> flag fl f = Some True}
      else affiliation fl = filter (\<lambda>f. flag fl f \<noteq> Some False) ?all
           \<and> set (affiliation fl) =
               {''owner'', ''collaborator'', ''member''} - {f. flag fl f = Some False}"
  proof (cases "owner fl = Some True \<or> collaborator fl = Some True \<or> member fl = Some True")
    case True
    then have "affiliation fl = filter (\<lambda>f. flag fl f = Some True) ?all"
      by (simp only: res if_True)
    with True sets(1) show ?thesis by (simp only: if_True)
  next
    case False
    then have "affiliation fl = filter (\<lambda>f. flag fl f \<noteq> Some False) ?all"
      by (simp only: res if_False)
    with False sets(2) show ?thesis by (simp only: if_False)
  qed
  from opts mid empty show ?thesis by (intro conjI)
qed

text \<open>
  The resolution at \<open>--no-collaborator\<close> alone (no flag explicitly \<open>true\<close>): the two flags
  that are not explicitly \<open>false\<close>.
\<close>

theorem buildFetchOptions_affiliation_resolution_witness:
  "affiliation \<lparr>isPublic = None, isPrivate = None, owner = None, collaborator = Some False,
       member = None, exclude = None, match = None\<rparr> = [''owner'', ''member'']
   \<and> set (affiliation \<lparr>isPublic = None, isPrivate = None, owner = None,
       collaborator = Some False, member = None, exclude = None, match = None\<rparr>)
       = {''owner'', ''member''}"
  using buildFetchOptions_affiliation_resolution
    [of "\<lparr>isPublic = None, isPrivate = None, owner = None, collaborator = Some False,
       member = None, exclude = None, match = None\<rparr>"]
  by (simp add: flag_def)

section \<open>Where \<open>member\<close> becomes \<open>organization_member\<close>\<close>

lemma affiliation_subset: "set (affiliation fl) \<subseteq> {''owner'', ''collaborator'', ''member''}"
  unfolding affiliation_eq by (auto simp: affiliationFlags_def)

text \<open>
  C9 (as amended).  The value \<open>member\<close> is spelled \<open>organization_member\<close> in the listing
  of the authenticated account, and only there: the \<open>Authenticated\<close> branch sends the
  resolved affiliation array with every \<open>member\<close> replaced, so that the token \<open>member\<close>
  never occurs in it.  The branches \<open>User\<close> and \<open>Organization\<close> (accounts other than the
  token owner's) send no affiliation at all but a single parameter \<open>type\<close>, one of
  \<open>member\<close>, \<open>owner\<close>, \<open>all\<close>, \<open>public\<close>, \<open>private\<close>; the value \<open>member\<close> is sent
  there as it is.
\<close>

theorem buildFetchOptions_member_remap:
  "(\<exists>toks visibility.
      buildFetchOptions fl ''Authenticated'' =
        Inr \<lparr>otype = ''Authenticated'',
             params = [(''affiliation'', join '','' toks), (''visibility'', visibility)]\<rparr>
      \<and> toks = map (\<lambda>aff. if aff = ''member'' then ''organization_member'' else aff)
                 (affiliation fl)
      \<and> ''member'' \<notin> set toks
      \<and> (''organization_member'' \<in> set toks \<longleftrightarrow> ''member'' \<in> set (affiliation fl)))
   \<and> (type = ''User'' \<or> type = ''Organization'' \<longrightarrow>
        (\<exists>typeParam.
           buildFetchOptions fl type = Inr \<lparr>otype = type, params = [(''type'', typeParam)]\<rparr>
           \<and> typeParam \<in> {''member'', ''owner'', ''all'', ''public'', ''private''}))
   \<and> (member fl = Some True \<and> owner fl \<noteq> Some True \<longrightarrow>
        buildFetchOptions fl ''User'' = Inr \<lparr>otype = ''User'', params = [(''type'', ''member'')]\<rparr>)
   \<and> (member fl = Some True \<and> isPublic fl \<noteq> Some True \<and> isPrivate fl \<noteq> Some True \<longrightarrow>
        buildFetchOptions fl ''Organization'' =
          Inr \<lparr>otype = ''Organization'', params = [(''type'', ''member'')]\<rparr>)"
proof (intro conjI)
  let ?toks = "map (\<lambda>aff. if aff = ''member'' then ''organization_member'' else aff)
                 (affiliation fl)"
  have a: "''member'' \<notin> set ?toks" by auto
  have b: "''organization_member'' \<in> set ?toks \<longleftrightarrow> ''member'' \<in> set (affiliation fl)"
    using affiliation_subset [of fl] by auto
  show "\<exists>toks visibility.
      buildFetchOptions fl ''Authenticated'' =
        Inr \<lparr>otype = ''Authenticated'',
             params = [(''affiliation'', join '','' toks), (''visibility'', visibility)]\<rparr>
      \<and> toks = map (\<lambda>aff. if aff = ''member'' then ''organization_member'' else aff)
                 (affiliation fl)
      \<and> ''member'' \<notin> set toks
      \<and> (''organization_member'' \<in> set toks \<longleftrightarrow> ''member'' \<in> set (affiliation fl))"
    unfolding buildFetchOptions_Authenticated using a b by blast
next
  show "type = ''User'' \<or> type = ''Organization'' \<longrightarrow>
        (\<exists>typeParam.
           buildFetchOptions fl type = Inr \<lparr>otype = type, params = [(''type'', typeParam)]\<rparr>
           \<and> typeParam \<in> {''member'', ''owner'', ''all'', ''public'', ''private''})"
    by (auto simp: buildFetchOptions_def Let_def)
next
  show "member fl = Some True \<and> owner fl \<noteq> Some True \<longrightarrow>
        buildFetchOptions fl ''User'' = Inr \<lparr>otype = ''User'', params = [(''type'', ''member'')]\<rparr>"
    by (simp add: buildFetchOptions_def Let_def truthy_def)
next
  show "member fl = Some True \<and> isPublic fl \<noteq> Some True \<and> isPrivate fl \<noteq> Some True \<longrightarrow>
        buildFetchOptions fl ''Organization'' =
          Inr \<lparr>otype = ''Organization'', params = [(''type'', ''member'')]\<rparr>"
    by (simp add: buildFetchOptions_def Let_def truthy_def)
qed

text \<open>
  With \<open>--member\<close> alone: an organization is listed with \<open>type=member\<close>, the
  authenticated account with \<open>affiliation=organization_member\<close>.
\<close>

theorem buildFetchOptions_member_remap_witness:
  "buildFetchOptions \<lparr>isPublic = None, isPrivate = None, owner = None, collaborator = None,
       member = Some True, exclude = None, match = None\<rparr> ''Organization'' =
     Inr \<lparr>otype = ''Organization'', params = [(''type'', ''member'')]\<rparr>
   \<and> buildFetchOptions \<lparr>isPublic = None, isPrivate = None, owner = None, collaborator = None,
       member = Some True, exclude = None, match = None\<rparr> ''Authenticated'' =
     Inr \<lparr>otype = ''Authenticated'',
          params = [(''affiliation'', ''organization_member''), (''visibility'', ''all'')]\<rparr>"
proof -
  let ?fl = "\<lparr>isPublic = None, isPrivate = None, owner = None, collaborator = None,
       member = Some True, exclude = None, match = None\<rparr>"
  note t = buildFetchOptions_member_remap [of ?fl "''Organization''"]
  have 1: "buildFetchOptions ?fl ''Organization'' =
     Inr \<lparr>otype = ''Organization'', params = [(''type'', ''member'')]\<rparr>"
    using t by simp
  have aff: "affiliation ?fl = [''member'']"
    by (simp add: affiliation_eq affiliationFlags_def flag_def)
  from t obtain toks visibility where
    "buildFetchOptions ?fl ''Authenticated'' =
        Inr \<lparr>otype = ''Authenticated'',
             params = [(''affiliation'', join '','' toks), (''visibility'', visibility)]\<rparr>"
    and "toks = map (\<lambda>aff. if aff = ''member'' then ''organization_member'' else aff)
                 (affiliation ?fl)"
    by blast
  then have 2: "buildFetchOptions ?fl ''Authenticated'' =
     Inr \<lparr>otype = ''Authenticated'',
          params = [(''affiliation'', ''organization_member''), (''visibility'', ''all'')]\<rparr>"
    unfolding aff by (simp add: buildFetchOptions_Authenticated truthy_def)
  from 1 2 show ?thesis by (intro conjI)
qed

text \<open>
  C9 as stated fails: listing another user with \<open>--member\<close> sends \<open>member\<close>, not
  \<open>organization_member\<close>.
\<close>

theorem member_remap_counterexample:
  "buildFetchOptions \<lparr>isPublic = None, isPrivate = None, owner = None, collaborator = None,
       member = Some True, exclude = None, match = None\<rparr> ''User'' =
     Inr \<lparr>otype = ''User'', params = [(''type'', ''member'')]\<rparr>"
  by (simp add: buildFetchOptions_def Let_def truthy_def)

section \<open>Exclusion and inclusion filters\<close>

lemma excludeRule_step:
  "RegExp p = Some t \<Longrightarrow>
   excludeRule RegExp repo (acc, excluded) p =
     Inr (acc \<and> \<not> t (name repo),
          if acc \<and> t (name repo) then excluded @ [name repo] else excluded)"
  by (simp add: excludeRule_def Let_def)

lemma matchRule_step:
  "RegExp p = Some t \<Longrightarrow>
   matchRule RegExp repo (acc, excluded) p =
     Inr (acc \<and> t (name repo),
          if acc \<and> \<not> t (name repo) then excluded @ [name repo] else excluded)"
  by (simp add: matchRule_def Let_def)

lemma reduce_excludeRule:
  "\<forall>p \<in> set pats. RegExp p \<noteq> None \<Longrightarrow>
   reduce (excludeRule RegExp repo) pats (acc, excluded) =
     Inr (acc \<and> \<not> (\<exists>p \<in> set pats. test RegExp p (name repo)),
          if acc \<and> (\<exists>p \<in> set pats. test RegExp p (name repo))
          then excluded @ [name repo] else excluded)"
proof (induction pats arbitrary: acc excluded)
  case Nil
  then show ?case by simp
next
  case (Cons p pats)
  then obtain t where t: "RegExp p = Some t" by auto
  from Cons.prems have rest: "\<forall>p \<in> set pats. RegExp p \<noteq> None" by simp
  show ?case
    by (cases acc; cases "t (name repo)")
      (simp_all add: excludeRule_step [of RegExp p t] t test_def Cons.IH [OF rest])
qed

lemma reduce_matchRule:
  "\<forall>p \<in> set pats. RegExp p \<noteq> None \<Longrightarrow>
   reduce (matchRule RegExp repo) pats (acc, excluded) =
     Inr (acc \<and> (\<forall>p \<in> set pats. test RegExp p (name repo)),
          if acc \<and> \<not> (\<forall>p \<in> set pats. test RegExp p (name repo))
          then excluded @ [name repo] else excluded)"
proof (induction pats arbitrary: acc excluded)
  case Nil
  then show ?case by simp
next
  case (Cons p pats)
  then obtain t where t: "RegExp p = Some t" by auto
  from Cons.prems have rest: "\<forall>p \<in> set pats. RegExp p \<noteq> None" by simp
  show ?case
    by (cases acc; cases "t (name repo)")
      (simp_all add: matchRule_step [of RegExp p t] t test_def Cons.IH [OF rest])
qed

lemma filterRules_keep:
  assumes "\<And>repo excluded. reduce (rule repo) pats (True, excluded) =
             Inr (keep repo, if keep repo then excluded else excluded @ [name repo])"
  shows "filterRules rule pats repositories excluded =
           Inr (filter keep repositories,
                excluded @ map name (filter (\<lambda>r. \<not> keep r) repositories))"
  by (induction repositories arbitrary: excluded) (simp_all add: assms)

lemma handleExclusions_absent:
  "exclude fl = None \<or> exclude fl = Some [] \<Longrightarrow>
   handleExclusions RegExp fl repositories = Inr (repositories, [])"
  by (auto simp: handleExclusions_def)

lemma handleInclusions_absent:
  "match fl = None \<or> match fl = Some [] \<Longrightarrow>
   handleInclusions RegExp fl repositories = Inr (repositories, [])"
  by (auto simp: handleInclusions_def)

lemma handleExclusions_valid:
  assumes "exclude fl = Some xs" and "\<forall>p \<in> set xs. RegExp p \<noteq> None"
  shows "handleExclusions RegExp fl repositories =
           Inr (filter (\<lambda>r. \<forall>p \<in> set xs. \<not> test RegExp p (name r)) repositories,
                map name (filter (\<lambda>r. \<exists>p \<in> set xs. test RegExp p (name r)) repositories))"
proof (cases xs)
  case Nil
  with assms(1) show ?thesis by (simp add: handleExclusions_def)
next
  case (Cons x xs')
  have "filterRules (excludeRule RegExp) xs repositories [] =
          Inr (filter (\<lambda>r. \<not> (\<exists>p \<in> set xs. test RegExp p (name r))) repositories,
               [] @ map name
                 (filter (\<lambda>r. \<not> \<not> (\<exists>p \<in> set xs. test RegExp p (name r))) repositories))"
    by (rule filterRules_keep) (simp add: reduce_excludeRule [OF assms(2)])
  with assms(1) Cons show ?thesis by (simp add: handleExclusions_def)
qed

lemma handleInclusions_valid:
  assumes "match fl = Some ms" and "\<forall>p \<in> set ms. RegExp p \<noteq> None"
  shows "handleInclusions RegExp fl repositories =
           Inr (filter (\<lambda>r. \<forall>p \<in> set ms. test RegExp p (name r)) repositories,
                map name (filter (\<lambda>r. \<exists>p \<in> set ms. \<not> test RegExp p (name r)) repositories))"
proof (cases ms)
  case Nil
  with assms(1) show ?thesis by (simp add: handleInclusions_def)
next
  case (Cons x ms')
  have "filterRules (matchRule RegExp) ms repositories [] =
          Inr (filter (\<lambda>r. \<forall>p \<in> set ms. test RegExp p (name r)) repositories,
               [] @ map name
                 (filter (\<lambda>r. \<not> (\<forall>p \<in> set ms. test RegExp p (name r))) repositories))"
    by (rule filterRules_keep) (simp add: reduce_matchRule [OF assms(2)])
  with assms(1) Cons show ?thesis by (simp add: handleInclusions_def)
qed

text \<open>
  \<open>handleExclusions\<close> and \<open>handleInclusions\<close> of src/commons.js return the repository
  array as it is when their pattern list is absent or empty.  With a list of patterns
  that compile, \<open>handleExclusions\<close> keeps the repositories whose short name \<open>name\<close> is
  matched by none of the patterns (one matching pattern drops the repository) and
  \<open>handleInclusions\<close> keeps those whose short name is matched by every pattern; each also
  collects the names it dropped.
\<close>

theorem filters_test_short_names:
  "(exclude fl = None \<or> exclude fl = Some [] \<longrightarrow>
      handleExclusions RegExp fl repositories = Inr (repositories, []))
   \<and> (match fl = None \<or> match fl = Some [] \<longrightarrow>
      handleInclusions RegExp fl repositories = Inr (repositories, []))
   \<and> (exclude fl = Some xs \<and> (\<forall>p \<in> set xs. RegExp p \<noteq> None) \<longrightarrow>
      handleExclusions RegExp fl repositories =
        Inr (filter (\<lambda>r. \<forall>p \<in> set xs. \<not> test RegExp p (name r)) repositories,
             map name (filter (\<lambda>r. \<exists>p \<in> set xs. test RegExp p (name r)) repositories)))
   \<and> (match fl = Some ms \<and> (\<forall>p \<in> set ms. RegExp p \<noteq> None) \<longrightarrow>
      handleInclusions RegExp fl repositories =
        Inr (filter (\<lambda>r. \<forall>p \<in> set ms. test RegExp p (name r)) repositories,
             map name (filter (\<lambda>r. \<exists>p \<in> set ms. \<not> test RegExp p (name r)) repositories)))"
proof (intro conjI impI)
  assume "exclude fl = None \<or> exclude fl = Some []"
  then show "handleExclusions RegExp fl repositories = Inr (repositories, [])"
    by (rule handleExclusions_absent)
next
  assume "match fl = None \<or> match fl = Some []"
  then show "handleInclusions RegExp fl repositories = Inr (repositories, [])"
    by (rule handleInclusions_absent)
next
  assume "exclude fl = Some xs \<and> (\<forall>p \<in> set xs. RegExp p \<noteq> None)"
  then show "handleExclusions RegExp fl repositories =
        Inr (filter (\<lambda>r. \<forall>p \<in> set xs. \<not> test RegExp p (name r)) repositories,
             map name (filter (\<lambda>r. \<exists>p \<in> set xs. test RegExp p (name r)) repositories))"
    using handleExclusions_valid [of fl xs RegExp repositories] by blast
next
  assume "match fl = Some ms \<and> (\<forall>p \<in> set ms. RegExp p \<noteq> None)"
  then show "handleInclusions RegExp fl repositories =
        Inr (filter (\<lambda>r. \<forall>p \<in> set ms. test RegExp p (name r)) repositories,
             map name (filter (\<lambda>r. \<exists>p \<in> set ms. \<not> test RegExp p (name r)) repositories))"
    using handleInclusions_valid [of fl ms RegExp repositories] by blast
qed

text \<open>
  C2.  The example of the specification: repositories named \<open>a\<close>, \<open>b\<close>, \<open>c\<close> (their full
  names \<open>octocat/a\<close>, \<open>octocat/b\<close>, \<open>octocat/c\<close> match neither anchored pattern),
  \<open>exclude = ["^a$"]\<close> and \<open>match = ["^(a|b)$"]\<close>.  The two functions of src/commons.js do
  what the claim says: \<open>handleExclusions\<close> drops \<open>a\<close>, and \<open>handleInclusions\<close>, given what
  is left, keeps \<open>b\<close> alone.  But \<open>run\<close> filters with the methods of the command, which
  call these functions and return nothing: \<open>this.handleExclusions(repositories)\<close> is
  \<open>undefined\<close>, \<open>this.handleInclusions(undefined)\<close> throws a \<open>TypeError\<close>, and so does
  the expression of line 626; without the flag \<open>match\<close> the expression is \<open>undefined\<close>.
  The filtered result is not the repository \<open>b\<close>.
\<close>

theorem filtered_loses_the_repositories:
  "handleExclusions sampleRegExp
     \<lparr>isPublic = None, isPrivate = None, owner = None, collaborator = None, member = None,
      exclude = Some [''^a$''], match = Some [''^(a|b)$'']\<rparr>
     [sampleRepository ''a'', sampleRepository ''b'', sampleRepository ''c'']
     = Inr ([sampleRepository ''b'', sampleRepository ''c''], [''a''])
   \<and> handleInclusions sampleRegExp
     \<lparr>isPublic = None, isPrivate = None, owner = None, collaborator = None, member = None,
      exclude = Some [''^a$''], match = Some [''^(a|b)$'']\<rparr>
     [sampleRepository ''b'', sampleRepository ''c'']
     = Inr ([sampleRepository ''b''], [''c''])
   \<and> command_handleExclusions sampleRegExp
     \<lparr>isPublic = None, isPrivate = None, owner = None, collaborator = None, member = None,
      exclude = Some [''^a$''], match = Some [''^(a|b)$'']\<rparr>
     [sampleRepository ''a'', sampleRepository ''b'', sampleRepository ''c'']
     = Inr None
   \<and> command_handleInclusions sampleRegExp
     \<lparr>isPublic = None, isPrivate = None, owner = None, collaborator = None, member = None,
      exclude = Some [''^a$''], match = Some [''^(a|b)$'']\<rparr>
     None
     = Inl TypeError
   \<and> filtered sampleRegExp
     \<lparr>isPublic = None, isPrivate = None, owner = None, collaborator = None, member = None,
      exclude = Some [''^a$''], match = Some [''^(a|b)$'']\<rparr>
     [sampleRepository ''a'', sampleRepository ''b'', sampleRepository ''c'']
     = Inl TypeError
   \<and> filtered sampleRegExp
     \<lparr>isPublic = None, isPrivate = None, owner = None, collaborator = None, member = None,
      exclude = Some [''^a$''], match = None\<rparr>
     [sampleRepository ''a'', sampleRepository ''b'', sampleRepository ''c'']
     = Inr None"
  by code_simp

section \<open>The listing client\<close>

lemma skippedNames_append: "skippedNames (xs @ ys) = skippedNames xs @ skippedNames ys"
  by (induction xs rule: skippedNames.induct) simp_all

lemma foldl_keepReadable:
  "foldl (keepReadable token) (acc, log) d =
     (acc @ map (toRepository token) (filter (\<lambda>repo. \<not> lacksPull repo) d),
      log @ map (\<lambda>repo. SkipNoPull (raw_name repo)) (filter lacksPull d))"
  by (induction d arbitrary: acc log) (simp_all add: keepReadable_def)

lemma skippedNames_map: "skippedNames (map (\<lambda>repo. SkipNoPull (raw_name repo)) d) = map raw_name d"
  by (induction d) simp_all

lemma length_kept:
  "length (filter (\<lambda>repo. \<not> lacksPull repo) d) \<noteq> length d \<longleftrightarrow> filter lacksPull d \<noteq> []"
  using sum_length_filter_compl [of lacksPull d] by auto

lemma pageRepositories_Some:
  "\<exists>log'. pageRepositories token (Some r) log = (retained token r, log @ log')
      \<and> skippedNames log' = map raw_name (filter lacksPull (records r))
      \<and> FetchFailed \<notin> set log'
      \<and> (filter lacksPull (records r) \<noteq> [] \<longrightarrow>
           PullRight (length (retained token r)) (length (records r)) \<in> set log')"
proof (cases "data r")
  case None
  then show ?thesis by (simp add: pageRepositories_def retained_def records_def)
next
  case (Some d)
  show ?thesis
  proof (cases "d = []")
    case True
    with Some show ?thesis by (simp add: pageRepositories_def retained_def records_def)
  next
    case False
    let ?kept = "map (toRepository token) (filter (\<lambda>repo. \<not> lacksPull repo) d)"
    let ?skips = "map (\<lambda>repo. SkipNoPull (raw_name repo)) (filter lacksPull d)"
    let ?tail = "if length ?kept \<noteq> length d then [PullRight (length ?kept) (length d)] else []"
    have "pageRepositories token (Some r) log =
            (retained token r, log @ ([Got (length d)] @ ?skips @ ?tail))"
      using Some False
      by (simp add: pageRepositories_def retained_def records_def foldl_keepReadable)
    moreover have "skippedNames ([Got (length d)] @ ?skips @ ?tail)
        = map raw_name (filter lacksPull (records r))"
      using Some by (simp add: skippedNames_append skippedNames_map records_def)
    moreover have "FetchFailed \<notin> set ([Got (length d)] @ ?skips @ ?tail)"
      by auto
    moreover have "filter lacksPull (records r) \<noteq> [] \<longrightarrow>
        PullRight (length (retained token r)) (length (records r))
          \<in> set ([Got (length d)] @ ?skips @ ?tail)"
      using Some length_kept [of d] by (simp add: retained_def records_def)
    ultimately show ?thesis by blast
  qed
qed

lemma pageRepositories_None:
  "pageRepositories token None log = ([], log @ [NoRepositories])"
  by (simp add: pageRepositories_def)

lemma recurse_failed:
  "axios (url, q) = None \<Longrightarrow>
   recurseRepositories (Suc fuel) axios token url q acc log =
     Some (Inr acc, log @ [Fetch url, FetchFailed, NoRepositories])"
  by (simp add: pageRepositories_None nextUrl_def)

lemma recurse_listing:
  "listing axios (url, q) pages truncated \<Longrightarrow> length pages < fuel \<Longrightarrow>
   \<exists>log'. recurseRepositories fuel axios token url q acc log =
            Some (Inr (acc @ concat (map (retained token) pages)), log @ log')
     \<and> skippedNames log' = map raw_name (filter lacksPull (concat (map records pages)))
     \<and> (FetchFailed \<in> set log' \<longleftrightarrow> truncated)
     \<and> Fetch url \<in> set log'"
proof (induction pages arbitrary: url q acc log fuel)
  case Nil
  then obtain n where fuel: "fuel = Suc n" by (cases fuel) auto
  from Nil.prems(1) have failed: "axios (url, q) = None" and t: truncated by simp_all
  have "recurseRepositories fuel axios token url q acc log =
          Some (Inr acc, log @ [Fetch url, FetchFailed, NoRepositories])"
    unfolding fuel using failed by (rule recurse_failed)
  then show ?case
    using t by (intro exI [of _ "[Fetch url, FetchFailed, NoRepositories]"]) simp
next
  case (Cons r rs)
  then obtain n where fuel: "fuel = Suc n" and n: "length rs < n" by (cases fuel) auto
  from Cons.prems(1) have got: "axios (url, q) = Some r" by simp
  obtain plog where page: "pageRepositories token (Some r) (log @ [Fetch url]) =
        (retained token r, (log @ [Fetch url]) @ plog)"
    and pskip: "skippedNames plog = map raw_name (filter lacksPull (records r))"
    and pfail: "FetchFailed \<notin> set plog"
    using pageRepositories_Some [of token r "log @ [Fetch url]"] by blast
  show ?case
  proof (cases "nextUrl (Some r)")
    case (Inl e)
    with Cons.prems(1) show ?thesis by simp
  next
    case (Inr nxt)
    show ?thesis
    proof (cases nxt)
      case None
      with Inr Cons.prems(1) have rs: "rs = []" and t: "\<not> truncated" by simp_all
      have "recurseRepositories fuel axios token url q acc log =
              Some (Inr (acc @ retained token r), log @ ([Fetch url] @ plog))"
        unfolding fuel using got page Inr None by simp
      then show ?thesis
        using rs t pskip pfail
        by (intro exI [of _ "[Fetch url] @ plog"]) simp
    next
      case (Some u)
      with Inr Cons.prems(1) have rest: "listing axios (u, None) rs truncated" by simp
      from Cons.IH [OF rest n, of "acc @ retained token r" "(log @ [Fetch url]) @ plog"]
      obtain rlog where
        rec: "recurseRepositories n axios token u None (acc @ retained token r)
                ((log @ [Fetch url]) @ plog) =
              Some (Inr ((acc @ retained token r) @ concat (map (retained token) rs)),
                    ((log @ [Fetch url]) @ plog) @ rlog)"
        and rskip: "skippedNames rlog = map raw_name (filter lacksPull (concat (map records rs)))"
        and rfail: "FetchFailed \<in> set rlog \<longleftrightarrow> truncated"
        by blast+
      have "recurseRepositories fuel axios token url q acc log =
              Some (Inr (acc @ concat (map (retained token) (r # rs))),
                    log @ ([Fetch url] @ plog @ rlog))"
        unfolding fuel using got page Inr Some rec by simp
      then show ?thesis
        using pskip pfail rskip rfail
        by (intro exI [of _ "[Fetch url] @ plog @ rlog"]) (simp add: skippedNames_append)
    qed
  qed
qed

lemma concat_retained:
  "concat (map (retained token) pages) =
     map (toRepository token) (filter (\<lambda>repo. \<not> lacksPull repo) (concat (map records pages)))"
  by (induction pages) (simp_all add: retained_def)

lemma getRepositories_listing:
  assumes "\<not> falsy token" and "falsy from"
    and "listing axios (base @ ''/user/repos'', options) pages truncated"
    and "length pages < fuel"
  shows "\<exists>log. getRepositories fuel axios token from options =
            Some (Inr (concat (map (retained (the token)) pages)), log)
     \<and> skippedNames log = map raw_name (filter lacksPull (concat (map records pages)))
     \<and> (FetchFailed \<in> set log \<longleftrightarrow> truncated)
     \<and> Fetch (base @ ''/user/repos'') \<in> set log"
proof -
  from recurse_listing [OF assms(3,4), of "the token" "[]" "[Arguments, FetchAuthenticated]"]
  obtain log' where
    "recurseRepositories fuel axios (the token) (base @ ''/user/repos'') options []
        [Arguments, FetchAuthenticated] =
       Some (Inr (concat (map (retained (the token)) pages)),
             [Arguments, FetchAuthenticated] @ log')"
    and "skippedNames log' = map raw_name (filter lacksPull (concat (map records pages)))"
    and "FetchFailed \<in> set log' \<longleftrightarrow> truncated"
    and "Fetch (base @ ''/user/repos'') \<in> set log'"
    by auto
  with assms(1,2) show ?thesis
    by (intro exI [of _ "[Arguments, FetchAuthenticated] @ log'"])
      (simp add: getRepositories_def)
qed

lemma sample_listing: "listing sampleAxios (base @ ''/user/repos'', None) samplePages False"
  by code_simp

text \<open>
  C3.  Let \<open>getRepositories\<close> be called with a token and without \<open>from\<close>, and let the
  pages \<open>pages\<close> be fetched one after the other along the \<open>rel="next"\<close> links, until
  either a page announces no next page or the next fetch fails (\<open>truncated\<close>).  Then the
  promise resolves: it is never rejected, a failed fetch leaves the line \<open>fetch failed\<close>
  in the debug log and nothing else, and the value is the concatenation, in page order,
  of the records retained from the pages fetched before.  When the three pages hold 100,
  100 and 37 records and no record lacks pull permission, the value is the 237
  normalised records in page order.
\<close>

theorem getRepositories_pagination:
  "\<not> falsy token \<and> falsy from \<and>
   listing axios (base @ ''/user/repos'', options) pages truncated \<and> length pages < fuel \<longrightarrow>
     (\<exists>log. getRepositories fuel axios token from options =
              Some (Inr (concat (map (retained (the token)) pages)), log)
           \<and> (FetchFailed \<in> set log \<longleftrightarrow> truncated))
     \<and> (map (\<lambda>r. length (records r)) pages = [100, 100, 37] \<and>
        (\<forall>r \<in> set pages. \<forall>repo \<in> set (records r). \<not> lacksPull repo) \<longrightarrow>
          (\<exists>rs log. getRepositories fuel axios token from options = Some (Inr rs, log)
             \<and> rs = map (toRepository (the token)) (concat (map records pages))
             \<and> length rs = 237))"
proof (intro impI, elim conjE)
  assume a: "\<not> falsy token" "falsy from"
    "listing axios (base @ ''/user/repos'', options) pages truncated" "length pages < fuel"
  from getRepositories_listing [OF a]
  obtain log where res: "getRepositories fuel axios token from options =
            Some (Inr (concat (map (retained (the token)) pages)), log)"
    and failed: "FetchFailed \<in> set log \<longleftrightarrow> truncated"
    by blast
  have counted: "\<exists>rs log. getRepositories fuel axios token from options = Some (Inr rs, log)
             \<and> rs = map (toRepository (the token)) (concat (map records pages))
             \<and> length rs = 237"
    if sizes: "map (\<lambda>r. length (records r)) pages = [100, 100, 37]"
      and readable: "\<forall>r \<in> set pages. \<forall>repo \<in> set (records r). \<not> lacksPull repo"
  proof -
    from readable have "filter (\<lambda>repo. \<not> lacksPull repo) (concat (map records pages))
        = concat (map records pages)"
      by (intro filter_True) auto
    then have all: "concat (map (retained (the token)) pages)
        = map (toRepository (the token)) (concat (map records pages))"
      by (simp add: concat_retained)
    have "length (concat (map records pages)) = sum_list (map (\<lambda>r. length (records r)) pages)"
      by (simp add: length_concat comp_def)
    also have "\<dots> = 237" unfolding sizes by simp
    finally show ?thesis using res all by simp
  qed
  have first: "\<exists>log. getRepositories fuel axios token from options =
              Some (Inr (concat (map (retained (the token)) pages)), log)
           \<and> (FetchFailed \<in> set log \<longleftrightarrow> truncated)"
    using res failed by (intro exI [of _ log] conjI)
  have second: "map (\<lambda>r. length (records r)) pages = [100, 100, 37] \<and>
        (\<forall>r \<in> set pages. \<forall>repo \<in> set (records r). \<not> lacksPull repo) \<longrightarrow>
          (\<exists>rs log. getRepositories fuel axios token from options = Some (Inr rs, log)
             \<and> rs = map (toRepository (the token)) (concat (map records pages))
             \<and> length rs = 237)"
    using counted by (intro impI, elim conjE)
  from first second
  show "(\<exists>log. getRepositories fuel axios token from options =
              Some (Inr (concat (map (retained (the token)) pages)), log)
           \<and> (FetchFailed \<in> set log \<longleftrightarrow> truncated))
     \<and> (map (\<lambda>r. length (records r)) pages = [100, 100, 37] \<and>
        (\<forall>r \<in> set pages. \<forall>repo \<in> set (records r). \<not> lacksPull repo) \<longrightarrow>
          (\<exists>rs log. getRepositories fuel axios token from options = Some (Inr rs, log)
             \<and> rs = map (toRepository (the token)) (concat (map records pages))
             \<and> length rs = 237))"
    by (rule conjI)
qed

text \<open>The three pages of the sample server, followed through their \<open>Link\<close> headers.\<close>

theorem getRepositories_pagination_witness:
  "\<exists>rs log. getRepositories 4 sampleAxios (Some ''t0k3n'') None None = Some (Inr rs, log)
     \<and> rs = replicate 237 (toRepository ''t0k3n'' sampleRaw)"
proof -
  have given: "\<not> falsy (Some ''t0k3n'') \<and> falsy None \<and>
      listing sampleAxios (base @ ''/user/repos'', None) samplePages False \<and>
      length samplePages < 4"
  proof (intro conjI)
    show "length samplePages < 4" by (simp add: samplePages_def Let_def)
  qed (simp_all add: falsy_def sample_listing)
  have sizes: "map (\<lambda>r. length (records r)) samplePages = [100, 100, 37]"
    by (simp add: samplePages_def records_def Let_def)
  have readable: "\<forall>r \<in> set samplePages. \<forall>repo \<in> set (records r). \<not> lacksPull repo"
    by (simp add: samplePages_def records_def lacksPull_def sampleRaw_def Let_def)
  have raws: "concat (map records samplePages) = replicate 237 sampleRaw"
    by (simp add: samplePages_def records_def Let_def flip: replicate_add)
  from getRepositories_pagination
    [of "Some ''t0k3n''" None sampleAxios None samplePages False 4] given sizes readable
  have "\<exists>rs log. getRepositories 4 sampleAxios (Some ''t0k3n'') None None = Some (Inr rs, log)
     \<and> rs = map (toRepository (the (Some ''t0k3n''))) (concat (map records samplePages))
     \<and> length rs = 237"
    by blast
  then show ?thesis unfolding raws by auto
qed

text \<open>
  C6.  Of one response, the client keeps exactly the records that do not lack pull
  permission (a record lacks it when it carries \<open>permissions\<close> and \<open>permissions.pull\<close> is
  false), normalised and in order; it writes one debug line \<open>skipping\<close> with the name of
  each record it drops, and, when it dropped any, a line with the number kept and the
  number received.  Over a whole listing, the array \<open>getRepositories\<close> returns holds
  the readable records only; its length, which is the count the command shows, and the
  number of \<open>skipping\<close> lines add up to the number of records received.
\<close>

theorem permission_filtering:
  "(\<exists>log'. pageRepositories token (Some r) log =
        (map (toRepository token) (filter (\<lambda>repo. \<not> lacksPull repo) (records r)), log @ log')
      \<and> skippedNames log' = map raw_name (filter lacksPull (records r))
      \<and> (filter lacksPull (records r) \<noteq> [] \<longrightarrow>
           PullRight (length (filter (\<lambda>repo. \<not> lacksPull repo) (records r)))
             (length (records r)) \<in> set log'))
   \<and> (\<not> falsy tok \<and> falsy from \<and>
      listing axios (base @ ''/user/repos'', options) pages truncated \<and> length pages < fuel \<longrightarrow>
      (\<exists>rs log. getRepositories fuel axios tok from options = Some (Inr rs, log)
         \<and> rs = map (toRepository (the tok))
                  (filter (\<lambda>repo. \<not> lacksPull repo) (concat (map records pages)))
         \<and> skippedNames log = map raw_name (filter lacksPull (concat (map records pages)))
         \<and> length rs + length (skippedNames log) = length (concat (map records pages))))"
proof (rule conjI)
  from pageRepositories_Some [of token r log]
  show "\<exists>log'. pageRepositories token (Some r) log =
        (map (toRepository token) (filter (\<lambda>repo. \<not> lacksPull repo) (records r)), log @ log')
      \<and> skippedNames log' = map raw_name (filter lacksPull (records r))
      \<and> (filter lacksPull (records r) \<noteq> [] \<longrightarrow>
           PullRight (length (filter (\<lambda>repo. \<not> lacksPull repo) (records r)))
             (length (records r)) \<in> set log')"
    by (auto simp: retained_def)
next
  show "\<not> falsy tok \<and> falsy from \<and>
      listing axios (base @ ''/user/repos'', options) pages truncated \<and> length pages < fuel \<longrightarrow>
      (\<exists>rs log. getRepositories fuel axios tok from options = Some (Inr rs, log)
         \<and> rs = map (toRepository (the tok))
                  (filter (\<lambda>repo. \<not> lacksPull repo) (concat (map records pages)))
         \<and> skippedNames log = map raw_name (filter lacksPull (concat (map records pages)))
         \<and> length rs + length (skippedNames log) = length (concat (map records pages)))"
  proof (intro impI, elim conjE)
    assume a: "\<not> falsy tok" "falsy from"
      "listing axios (base @ ''/user/repos'', options) pages truncated" "length pages < fuel"
    let ?raws = "concat (map records pages)"
    from getRepositories_listing [OF a]
    obtain log where res: "getRepositories fuel axios tok from options =
            Some (Inr (concat (map (retained (the tok)) pages)), log)"
      and skipped: "skippedNames log = map raw_name (filter lacksPull ?raws)"
      by blast
    have count: "length (map (toRepository (the tok)) (filter (\<lambda>repo. \<not> lacksPull repo) ?raws))
        + length (skippedNames log) = length ?raws"
      unfolding skipped using sum_length_filter_compl [of lacksPull ?raws] by simp
    from res skipped count
    show "\<exists>rs log. getRepositories fuel axios tok from options = Some (Inr rs, log)
         \<and> rs = map (toRepository (the tok)) (filter (\<lambda>repo. \<not> lacksPull repo) ?raws)
         \<and> skippedNames log = map raw_name (filter lacksPull ?raws)
         \<and> length rs + length (skippedNames log) = length ?raws"
      unfolding concat_retained by blast
  qed
qed

text \<open>A page of two records, one of them without pull permission.\<close>

theorem permission_filtering_witness:
  "\<exists>log'. pageRepositories ''t0k3n''
       (Some \<lparr>data = Some [sampleRaw, samplePrivate], headers_link = None\<rparr>) [] =
       ([toRepository ''t0k3n'' sampleRaw], log')
     \<and> skippedNames log' = [''secret'']
     \<and> PullRight 1 2 \<in> set log'"
proof -
  let ?r = "\<lparr>data = Some [sampleRaw, samplePrivate], headers_link = None\<rparr>"
  have recs: "records ?r = [sampleRaw, samplePrivate]" by (simp add: records_def)
  have lacks: "\<not> lacksPull sampleRaw" "lacksPull samplePrivate"
    by (simp_all add: lacksPull_def sampleRaw_def samplePrivate_def)
  from permission_filtering [of "''t0k3n''" ?r "[]"]
  have "\<exists>log'. pageRepositories ''t0k3n'' (Some ?r) [] =
        (map (toRepository ''t0k3n'') (filter (\<lambda>repo. \<not> lacksPull repo) (records ?r)),
         [] @ log')
      \<and> skippedNames log' = map raw_name (filter lacksPull (records ?r))
      \<and> (filter lacksPull (records ?r) \<noteq> [] \<longrightarrow>
           PullRight (length (filter (\<lambda>repo. \<not> lacksPull repo) (records ?r)))
             (length (records ?r)) \<in> set log')"
    by (rule conjunct1)
  then obtain log' where
    page: "pageRepositories ''t0k3n'' (Some ?r) [] = ([toRepository ''t0k3n'' sampleRaw], log')"
    and skipped: "skippedNames log' = [raw_name samplePrivate]"
    and line: "PullRight (length [sampleRaw]) (length [sampleRaw, samplePrivate]) \<in> set log'"
    unfolding recs using lacks by auto
  have "raw_name samplePrivate = ''secret''" by (simp add: samplePrivate_def)
  with page skipped line show ?thesis
    by (intro exI [of _ log']) (simp add: numeral_2_eq_2)
qed

section \<open>Cleaning of the pull refs\<close>

text \<open>
  C7.  \<open>Git.cleanRefs\<close> answers \<open>true\<close> for a mirror whose only ref is
  \<open>refs/heads/master\<close>, as it does for a mirror from which it deletes \<open>refs/pull/1/head\<close>:
  it answers \<open>false\<close> only when \<open>git show-ref\<close> exits with code 1.  So when the stage runs
  twice on a mirror with one pull ref, the second run, which finds no pull ref and
  deletes nothing, succeeds without warning but writes \<open>pull refs cleaned\<close> and
  \<open>Refs cleaned\<close> like the first one, and never \<open>no pull ref to clean\<close>.
\<close>

theorem cleanRefs_reports_cleaned_without_pull_ref:
  "Git_cleanRefs (sampleGit []) ''/backup/octocat/hello.git'' [(''a1'', ''refs/heads/master'')]
     = (Inr True, [(''a1'', ''refs/heads/master'')])
   \<and> Git_cleanRefs (sampleGit []) ''/backup/octocat/hello.git''
       [(''a1'', ''refs/heads/master''), (''b2'', ''refs/pull/1/head'')]
     = (Inr True, [(''a1'', ''refs/heads/master'')])
   \<and> (case cleanRefs sampleFlags (sampleGit []) sampleData
             (sampleWorld [(''a1'', ''refs/heads/master''), (''b2'', ''refs/pull/1/head'')]
                [''octocat/hello''])
      of (first, w) \<Rightarrow>
        first = Inr False
        \<and> git_state w = [(''a1'', ''refs/heads/master'')]
        \<and> printed w = [CleanPullRefs ''octocat/hello'', PullRefsCleaned ''octocat/hello'']
        \<and> (case cleanRefs sampleFlags (sampleGit []) sampleData w of (second, w') \<Rightarrow>
              second = Inr False
              \<and> git_state w' = [(''a1'', ''refs/heads/master'')]
              \<and> printed w' =
                  [CleanPullRefs ''octocat/hello'', PullRefsCleaned ''octocat/hello'',
                   CleanPullRefs ''octocat/hello'', PullRefsCleaned ''octocat/hello'']
              \<and> map_option spin_text (spinners w' ''octocat/hello'') =
                  Some (''octocat/hello'' @ dash @ ''Refs cleaned'' @ dash @ ''Refs cleaned'')))"
  by code_simp

section \<open>The stages of one repository\<close>

lemma attempts_append: "attempts (xs @ ys) = attempts xs @ attempts ys"
  by (induction xs rule: attempts.induct) simp_all

lemma cloned_append: "cloned (xs @ ys) = cloned xs @ cloned ys"
  by (induction xs rule: cloned.induct) simp_all

lemma failures_append: "failures (xs @ ys) = failures xs @ failures ys"
  by (induction xs rule: failures.induct) simp_all

lemma completed_append: "completed (xs @ ys) = completed xs + completed ys"
  by (induction xs rule: completed.induct) simp_all

lemma lfsFetches_append: "lfsFetches (xs @ ys) = lfsFetches xs @ lfsFetches ys"
  by (induction xs rule: lfsFetches.induct) simp_all

lemma refCleanings_append: "refCleanings (xs @ ys) = refCleanings xs @ refCleanings ys"
  by (induction xs rule: refCleanings.induct) simp_all

lemma doneIn_append: "doneIn c (xs @ ys) = doneIn c xs + doneIn c ys"
  by (induction c xs rule: doneIn.induct) simp_all

lemmas summary_append = attempts_append cloned_append failures_append completed_append
  lfsFetches_append refCleanings_append doneIn_append




lemmas action_defs = andThen_def tryCatch_def whenNot_def resolve_def throw_def exec_def emit_def
  spinnies_add_def spinnies_pick_text_def spinnies_update_def spinnies_fail_def
  spinnies_succeed_def spinnies_remove_def













text \<open>With the limit 0 and a repository to back up, \<open>backup\<close> never settles.\<close>

lemma backup_never_settles:
  assumes "quiet fl \<or> spinners w ''backup'' \<noteq> None"
    and "parallel fl = 0" and "repositories \<noteq> []"
  shows "backup fl git destination repositories w = None"
proof -
  obtain label where "(if quiet fl then resolve [] else spinnies_pick_text ''backup'') w
      = (Inr label, w)"
    using assms(1) by (cases "quiet fl") (auto simp: resolve_def spinnies_pick_text_def)
  with assms(2,3) show ?thesis
    by (simp add: backup_def awaitThen_def settles_def mapLimit_def)
qed

section \<open>The listing of a run\<close>

lemma checkAuth_truthy:
  "checkAuth env = Inr a \<Longrightarrow>
     config_auth env = Some a \<and> \<not> falsy (auth_token a) \<and> \<not> falsy (auth_user a)"
  by (auto simp: checkAuth_def split: option.splits if_splits)

lemma initArgs_from:
  "initArgs env = Inr (from, destination) \<Longrightarrow> checkAuth env = Inr a \<Longrightarrow> \<not> falsy from"
proof -
  assume i: "initArgs env = Inr (from, destination)" and c: "checkAuth env = Inr a"
  from checkAuth_truthy [OF c] have cfg: "config_auth env = Some a" and u: "\<not> falsy (auth_user a)"
    by simp_all
  show ?thesis
  proof (cases "argv_from env")
    case None
    with i cfg have "from = auth_user a"
      by (simp add: initArgs_def split: if_splits)
    with u show ?thesis by simp
  next
    case (Some f)
    with i have "from = Some f" and "f \<noteq> []"
      by (auto simp: initArgs_def split: if_splits)
    then show ?thesis by (simp add: falsy_def)
  qed
qed

lemma getRepositories_named:
  "\<not> falsy token \<Longrightarrow> \<not> falsy from \<Longrightarrow>
   getRepositories fuel axios token from options = Some (Inr [], [Arguments])"
  by (simp add: getRepositories_def)

lemma checkDestination_lines:
  "checkDestination destination w = (r, w') \<Longrightarrow>
     \<exists>new. printed w' = printed w @ new \<and> attempts new = [] \<and> spinners w' = spinners w"
  by (auto simp: checkDestination_def action_defs access_def mkdir_def
      split: option.splits if_splits prod.splits)

lemma run_lists_nothing:
  "\<exists>settled w'. run env w = Some (settled, w') \<and>
     (settled = Inr () \<longrightarrow>
        (\<exists>ls. printed w' = printed w @ ls @ [Warn ''No repositories to backup.''] \<and>
              attempts ls = []))"
proof (cases "initArgs env")
  case (Inl e)
  then show ?thesis by (simp add: run_def)
next
  case (Inr args)
  obtain "from" destination where args: "args = (from, destination)" by (cases args)
  let ?w1 = "if quiet (argv_flags env)
             then snd (emit (DebugMessage ''quiet mode enabled'') w) else w"
  have w1: "\<exists>new. printed ?w1 = printed w @ new \<and> attempts new = []"
    by (simp add: emit_def)
  show ?thesis
  proof (cases "checkAuth env")
    case (Inl e)
    with Inr args show ?thesis by (simp add: run_def Let_def)
  next
    case a: (Inr a)
    from initArgs_from [of env "from" destination a] Inr args a
    have named: "\<not> falsy from" by simp
    from checkAuth_truthy [OF a] have token: "\<not> falsy (auth_token a)" by simp
    note listing = getRepositories_named [OF token named]
    show ?thesis
    proof (cases "checkGit env")
      case (Inl e)
      with Inr args a show ?thesis by (simp add: run_def Let_def)
    next
      case g: (Inr u)
      obtain r2 w2 where d: "checkDestination destination ?w1 = (r2, w2)"
        by (cases "checkDestination destination ?w1")
      from checkDestination_lines [OF d] w1
      obtain new2 where p2: "printed w2 = printed w @ new2" "attempts new2 = []"
        by (auto simp: summary_append)
      show ?thesis
      proof (cases r2)
        case (Inl e)
        with Inr args a g d show ?thesis by (simp add: run_def Let_def)
      next
        case r2: (Inr u2)
        define fl where "fl = (if interactive (argv_flags env)
                   then promptSearchFilters env (argv_flags env) else argv_flags env)"
        let ?opts = "if from = auth_user a then command_buildFetchOptions fl ''Authenticated''
                else (case account_type env of
                        Inl e \<Rightarrow> Inl e
                      | Inr type \<Rightarrow> command_buildFetchOptions fl type)"
        show ?thesis
        proof (cases ?opts)
          case (Inl e)
          with Inr args a g d r2 show ?thesis by (simp add: run_def Let_def flip: fl_def)
        next
          case o: (Inr options)
          have "\<exists>w'. run env w = Some (Inr (), w')
              \<and> printed w' = printed w2 @ [Warn ''No repositories to backup.'']"
            using Inr args a g d r2 o
            by (cases "quiet fl")
              (simp_all add: run_def Let_def listing afterListing_def awaitThen_def settles_def
                action_defs flip: fl_def)
          then show ?thesis
            using p2 by auto
        qed
      qed
    qed
  qed
qed

section \<open>Isolation of the repositories in a backup\<close>















lemma schedule_follow:
  assumes "schedule fl git destination label len limit c c'"
  shows "\<exists>x. follow fl git destination label len limit x c = Some c'"
  using assms
proof cases
  case (start running r pending ended w)
  then show ?thesis
    by (intro exI [of _ Start]) simp
next
  case (run st r w st' w' pending before after ended)
  then show ?thesis
    by (intro exI [of _ "Step (length before)"]) simp
next
  case (leave pending before r after ended w)
  then show ?thesis
    by (intro exI [of _ "Leave (length before)"]) simp
qed



text \<open>The sample backup, run on the model: one failure, two repositories done.\<close>

lemma sample_backup:
  "(case backup sampleFlags (sampleGit sampleUnreachable) ''/backup'' sampleRepositories
           (sampleWorld [] [''backup'']) of
      None \<Rightarrow> False
    | Some (settled, w') \<Rightarrow>
        settled = Inr () \<and>
        attempts (printed w') = [''octocat/a'', ''octocat/b'', ''octocat/c''] \<and>
        failures (printed w') = [''octocat/a''] \<and>
        cloned (printed w') = [''octocat/b'', ''octocat/c''] \<and>
        lfsFetches (printed w') = [] \<and>
        refCleanings (printed w') = [''octocat/b'', ''octocat/c''] \<and>
        completed (printed w') = 2 \<and> backupCount w' = 2)"
  by code_simp




section \<open>The exit status after a backup\<close>




section \<open>Listing for a named account\<close>

text \<open>
  C5 (as amended).  With a token, \<open>getRepositories\<close> returns the empty array whenever
  \<open>from\<close> is a non-empty string, whatever the options, the transport and the fuel, and
  writes no \<open>fetch\<close> line: it makes no request.  Without a token (absent or empty) it
  throws before it looks at \<open>from\<close>.  With a token and without \<open>from\<close> it does fetch the
  listing of the authenticated user.  The command always passes its token and a non-empty
  \<open>from\<close>: every run settles, and a run that resolves found no repository, wrote the
  warning and started no clone.
\<close>

theorem getRepositories_named_account:
  "(\<not> falsy token \<and> \<not> falsy from \<longrightarrow>
      getRepositories fuel axios token from options = Some (Inr [], [Arguments]))
   \<and> (falsy token \<longrightarrow>
      getRepositories fuel axios token from options =
        Some (Inl (Error ''No token provided @getAuthenticatedUserRepositories''), []))
   \<and> (\<not> falsy token \<and> falsy from \<and>
      listing axios (base @ ''/user/repos'', options) pages truncated \<and> length pages < fuel \<longrightarrow>
      (\<exists>res log. getRepositories fuel axios token from options = Some (res, log) \<and>
         Fetch (base @ ''/user/repos'') \<in> set log))
   \<and> (\<exists>settled w'. run env w = Some (settled, w') \<and>
        (settled = Inr () \<longrightarrow>
           (\<exists>ls. printed w' = printed w @ ls @ [Warn ''No repositories to backup.''] \<and>
                 attempts ls = [])))"
proof (intro conjI impI)
  assume "\<not> falsy token \<and> \<not> falsy from"
  then show "getRepositories fuel axios token from options = Some (Inr [], [Arguments])"
    by (simp add: getRepositories_named)
next
  assume "falsy token"
  then show "getRepositories fuel axios token from options =
        Some (Inl (Error ''No token provided @getAuthenticatedUserRepositories''), [])"
    by (simp add: getRepositories_def)
next
  assume "\<not> falsy token \<and> falsy from \<and>
      listing axios (base @ ''/user/repos'', options) pages truncated \<and> length pages < fuel"
  then have "\<not> falsy token" "falsy from"
    "listing axios (base @ ''/user/repos'', options) pages truncated" "length pages < fuel"
    by simp_all
  from getRepositories_listing [OF this]
  show "\<exists>res log. getRepositories fuel axios token from options = Some (res, log) \<and>
         Fetch (base @ ''/user/repos'') \<in> set log"
    by blast
next
  show "\<exists>settled w'. run env w = Some (settled, w') \<and>
        (settled = Inr () \<longrightarrow>
           (\<exists>ls. printed w' = printed w @ ls @ [Warn ''No repositories to backup.''] \<and>
                 attempts ls = []))"
    by (rule run_lists_nothing)
qed

text \<open>A named account with a token, and no fuel at all.\<close>

theorem getRepositories_named_account_witness:
  "getRepositories 0 sampleAxios (Some ''t0k3n'') (Some ''octocat'') None
     = Some (Inr [], [Arguments])"
proof -
  have "\<not> falsy (Some ''t0k3n'') \<and> \<not> falsy (Some ''octocat'')"
    by (simp add: falsy_def)
  with getRepositories_named_account
    [of "Some ''t0k3n''" "Some ''octocat''" 0 sampleAxios None]
  show ?thesis by blast
qed

text \<open>
  C5 as stated fails: with \<open>from\<close> naming an account and the token absent or empty, the
  call throws instead of returning the empty array.
\<close>

theorem getRepositories_without_token_counterexample:
  "getRepositories 1 sampleAxios None (Some ''octocat'') None
     = Some (Inl (Error ''No token provided @getAuthenticatedUserRepositories''), [])
   \<and> getRepositories 1 sampleAxios (Some []) (Some ''octocat'') None
     = Some (Inl (Error ''No token provided @getAuthenticatedUserRepositories''), [])"
  by (simp add: getRepositories_def falsy_def)

section \<open>Interrupts and the destination\<close>

text \<open>
  When the run created the destination and it is still empty, the handler removes it,
  writes its line and returns: this branch does not call \<open>process.exit\<close>.
\<close>

lemma shutdown_removes:
  assumes "destinationCreated w" and "dirs (files w) destination = Some []"
    and "destination \<notin> protected (files w)"
  shows "interrupt destination w =
      (None, w\<lparr>files := (files w)\<lparr>dirs := (dirs (files w))(destination := None)\<rparr>,
               printed := printed w @ [Log cancelled]\<rparr>)"
  using assms by (simp add: interrupt_def shutdown_def rmdirSync_def)

lemma shutdown_keeps:
  assumes "\<not> destinationCreated w \<or>
      (\<exists>entry entries. dirs (files w) destination = Some (entry # entries))"
  shows "fst (interrupt destination w) = Some 130 \<and> files (snd (interrupt destination w)) = files w"
proof (cases "destinationCreated w")
  case False
  then show ?thesis by (simp add: interrupt_def shutdown_def)
next
  case True
  with assms obtain entry entries where "dirs (files w) destination = Some (entry # entries)"
    by auto
  with True show ?thesis by (simp add: interrupt_def shutdown_def rmdirSync_def)
qed

lemma checkDestination_created:
  assumes "\<not> destinationCreated w" and "checkDestination destination w = (Inr (), w')"
  shows "(destinationCreated w' \<longleftrightarrow> dirs (files w) destination = None) \<and>
      (destinationCreated w' \<longrightarrow> dirs (files w') destination = Some []) \<and>
      (\<not> destinationCreated w' \<longrightarrow> files w' = files w)"
  using assms
  by (auto simp: checkDestination_def action_defs access_def mkdir_def
      split: option.splits if_splits prod.splits)

text \<open>
  What an interrupt does to the file system.  A destination that this run created and
  that is still empty is removed, and no other directory changes.  A destination that
  existed before the run, or that holds an entry by now, is left as it is with the whole
  file system, and the process exits with status 130.  The run created the destination
  exactly when \<open>checkDestination\<close> did not find it, and then it starts empty.
\<close>

theorem interrupt_frame:
  "(destinationCreated w \<and> dirs (files w) destination = Some [] \<and>
    destination \<notin> protected (files w) \<longrightarrow>
      dirs (files (snd (interrupt destination w))) destination = None \<and>
      (\<forall>p. p \<noteq> destination \<longrightarrow>
         dirs (files (snd (interrupt destination w))) p = dirs (files w) p))
   \<and> (\<not> destinationCreated w \<or>
      (\<exists>entry entries. dirs (files w) destination = Some (entry # entries)) \<longrightarrow>
      files (snd (interrupt destination w)) = files w \<and>
      fst (interrupt destination w) = Some 130)
   \<and> (\<not> destinationCreated v \<and> checkDestination destination v = (Inr (), v') \<longrightarrow>
      (destinationCreated v' \<longleftrightarrow> dirs (files v) destination = None) \<and>
      (destinationCreated v' \<longrightarrow> dirs (files v') destination = Some []) \<and>
      (\<not> destinationCreated v' \<longrightarrow> files v' = files v))"
proof (intro conjI impI allI)
  assume a: "destinationCreated w \<and> dirs (files w) destination = Some [] \<and>
    destination \<notin> protected (files w)"
  then have r: "interrupt destination w =
      (None, w\<lparr>files := (files w)\<lparr>dirs := (dirs (files w))(destination := None)\<rparr>,
               printed := printed w @ [Log cancelled]\<rparr>)"
    by (intro shutdown_removes) simp_all
  show "dirs (files (snd (interrupt destination w))) destination = None"
    by (simp add: r)
  fix p assume "p \<noteq> destination"
  then show "dirs (files (snd (interrupt destination w))) p = dirs (files w) p"
    by (simp add: r)
next
  assume b: "\<not> destinationCreated w \<or>
      (\<exists>entry entries. dirs (files w) destination = Some (entry # entries))"
  from shutdown_keeps [OF b]
  show "files (snd (interrupt destination w)) = files w"
    and "fst (interrupt destination w) = Some 130" by simp_all
next
  assume c: "\<not> destinationCreated v \<and> checkDestination destination v = (Inr (), v')"
  then have "\<not> destinationCreated v" "checkDestination destination v = (Inr (), v')"
    by simp_all
  from checkDestination_created [OF this]
  show "destinationCreated v' \<longleftrightarrow> dirs (files v) destination = None"
    and "destinationCreated v' \<Longrightarrow> dirs (files v') destination = Some []"
    and "\<not> destinationCreated v' \<Longrightarrow> files v' = files v" by blast+
qed

text \<open>
  An empty destination created by the run, one that holds a directory, one that existed
  before, and the creation of a destination that is missing.
\<close>

theorem interrupt_frame_example:
  "dirs (files (snd (interrupt ''/backup'' (sampleFiles (Some []) True)))) ''/backup'' = None
   \<and> files (snd (interrupt ''/backup'' (sampleFiles (Some [''octocat'']) True)))
       = files (sampleFiles (Some [''octocat'']) True)
   \<and> fst (interrupt ''/backup'' (sampleFiles (Some [''octocat'']) True)) = Some 130
   \<and> fst (interrupt ''/backup'' (sampleFiles (Some []) False)) = Some 130
   \<and> destinationCreated (snd (checkDestination ''/backup'' (sampleFiles None False)))"
proof -
  let ?empty = "sampleFiles (Some []) True"
  let ?full = "sampleFiles (Some [''octocat'']) True"
  let ?old = "sampleFiles (Some []) False"
  let ?none = "sampleFiles None False"
  obtain v' where v': "checkDestination ''/backup'' ?none = (Inr (), v')"
    by (simp add: checkDestination_def action_defs access_def mkdir_def sampleFiles_def
        sampleWorld_def)
  have 1: "destinationCreated ?empty \<and> dirs (files ?empty) ''/backup'' = Some [] \<and>
      ''/backup'' \<notin> protected (files ?empty)"
    by (simp add: sampleFiles_def)
  have 2: "\<not> destinationCreated ?full \<or>
      (\<exists>entry entries. dirs (files ?full) ''/backup'' = Some (entry # entries))"
    by (simp add: sampleFiles_def)
  have 3: "\<not> destinationCreated ?old \<or>
      (\<exists>entry entries. dirs (files ?old) ''/backup'' = Some (entry # entries))"
    by (simp add: sampleFiles_def)
  have 4: "\<not> destinationCreated ?none \<and> checkDestination ''/backup'' ?none = (Inr (), v')"
    and 5: "dirs (files ?none) ''/backup'' = None"
    using v' by (simp_all add: sampleFiles_def)
  from interrupt_frame [of ?empty "''/backup''" ?none v'] 1 4 5
  have a: "dirs (files (snd (interrupt ''/backup'' ?empty))) ''/backup'' = None"
    and e: "destinationCreated v'" by blast+
  from interrupt_frame [of ?full "''/backup''" ?none v'] 2
  have b: "files (snd (interrupt ''/backup'' ?full)) = files ?full"
    "fst (interrupt ''/backup'' ?full) = Some 130" by blast+
  from interrupt_frame [of ?old "''/backup''" ?none v'] 3
  have c: "fst (interrupt ''/backup'' ?old) = Some 130" by blast
  from a b c e v' show ?thesis by simp
qed

text \<open>
  C10.  The run created the destination \<open>/backup\<close> and it is still empty when the
  interrupt comes: the handler removes the directory, writes that the backup is
  cancelled, and returns; it does not call \<open>process.exit\<close>, so the handler does not end
  the process with status 130.  The two other branches do call \<open>process.exit(130)\<close>: with
  an entry in the destination, and with a destination that existed before the run, the
  directory stays and the status is 130.
\<close>

theorem interrupt_removes_without_exit:
  "fst (interrupt ''/backup'' (sampleFiles (Some []) True)) = None
   \<and> dirs (files (snd (interrupt ''/backup'' (sampleFiles (Some []) True)))) ''/backup'' = None
   \<and> printed (snd (interrupt ''/backup'' (sampleFiles (Some []) True))) = [Log cancelled]
   \<and> fst (interrupt ''/backup'' (sampleFiles (Some [''octocat'']) True)) = Some 130
   \<and> dirs (files (snd (interrupt ''/backup'' (sampleFiles (Some [''octocat'']) True))))
        ''/backup'' = Some [''octocat'']
   \<and> fst (interrupt ''/backup'' (sampleFiles (Some []) False)) = Some 130
   \<and> dirs (files (snd (interrupt ''/backup'' (sampleFiles (Some []) False)))) ''/backup''
       = Some []"
  by (simp add: interrupt_def shutdown_def rmdirSync_def sampleFiles_def sampleWorld_def)

end
